theory Spec2Isabelle
  imports Main "HOL-Library.FSet"
begin

section \<open>Data model (app/domain/models.py)\<close>

text \<open>
  Exceptions of the Python program are values. \<open>IndexError\<close> and \<open>KeyError\<close> are what
  list indexing and dictionary lookup raise; \<open>AttributeError\<close> is what reading
  \<open>.token\<close> of \<open>None\<close> raises; \<open>HTTPException code detail\<close> is what the service raises
  on purpose.
\<close>

datatype error = IndexError | KeyError | AttributeError | HTTPException nat string

datatype Phase = PLACEMENT | MOVEMENT

datatype GameStatus = WAITING | READY | PLAYING | FINISHED

text \<open>\<open>CellState\<close> is an \<open>int\<close> enumeration: cells hold plain integers.\<close>

definition EMPTY :: int where [simp]: "EMPTY = 0"
definition PLAYER1 :: int where [simp]: "PLAYER1 = 1"
definition PLAYER2 :: int where [simp]: "PLAYER2 = 2"

definition REFUGE_X :: int where [simp]: "REFUGE_X = 2"
definition REFUGE_Y :: int where [simp]: "REFUGE_Y = 2"
definition SIZE :: int where [simp]: "SIZE = 5"

record Board =
  cells :: "int list list"

text \<open>
  Python's \<open>xs[i]\<close> and \<open>xs[i] = v\<close>: a negative index counts from the end, an index
  out of range raises \<open>IndexError\<close> and leaves the list as it was.
\<close>

definition py_index :: "'a list \<Rightarrow> int \<Rightarrow> error + 'a" where
  "py_index xs i =
     (let n = int (length xs); j = (if i < 0 then i + n else i)
      in if 0 \<le> j \<and> j < n then Inr (xs ! nat j) else Inl IndexError)"

definition py_store :: "'a list \<Rightarrow> int \<Rightarrow> 'a \<Rightarrow> error + 'a list" where
  "py_store xs i v =
     (let n = int (length xs); j = (if i < 0 then i + n else i)
      in if 0 \<le> j \<and> j < n then Inr (xs[nat j := v]) else Inl IndexError)"

text \<open>\<open>Board.get\<close>: \<open>self.cells[y][x]\<close>.\<close>

definition get :: "Board \<Rightarrow> int \<Rightarrow> int \<Rightarrow> error + int" where
  "get b x y =
     (case py_index (cells b) y of
        Inl e \<Rightarrow> Inl e
      | Inr row \<Rightarrow> py_index row x)"

text \<open>
  \<open>Board.set\<close>: \<open>self.cells[y][x] = value\<close>. The row is read first, then updated in
  place; the rows of a board are distinct lists (\<open>[[0]*5 for _ in range(5)]\<close>), so the
  update touches this row only.
\<close>

definition set_cell :: "Board \<Rightarrow> int \<Rightarrow> int \<Rightarrow> int \<Rightarrow> error + Board" where
  "set_cell b x y v =
     (case py_index (cells b) y of
        Inl e \<Rightarrow> Inl e
      | Inr row \<Rightarrow>
          (case py_store row x v of
             Inl e \<Rightarrow> Inl e
           | Inr row' \<Rightarrow>
               (case py_store (cells b) y row' of
                  Inl e \<Rightarrow> Inl e
                | Inr cs \<Rightarrow> Inr (b\<lparr>cells := cs\<rparr>))))"

text \<open>\<open>Board.is_valid_position\<close>, \<open>is_empty\<close>, \<open>is_refuge\<close>.\<close>

definition is_valid_position :: "int \<Rightarrow> int \<Rightarrow> bool" where
  "is_valid_position x y \<longleftrightarrow> 0 \<le> x \<and> x < SIZE \<and> 0 \<le> y \<and> y < SIZE"

definition is_empty :: "Board \<Rightarrow> int \<Rightarrow> int \<Rightarrow> error + bool" where
  "is_empty b x y =
     (case get b x y of Inl e \<Rightarrow> Inl e | Inr c \<Rightarrow> Inr (c = EMPTY))"

definition is_refuge :: "int \<Rightarrow> int \<Rightarrow> bool" where
  "is_refuge x y \<longleftrightarrow> x = REFUGE_X \<and> y = REFUGE_Y"

text \<open>The default board: \<open>[[0]*5 for _ in range(5)]\<close>.\<close>

definition new_board :: Board where
  "new_board = \<lparr>cells = replicate 5 (replicate 5 EMPTY)\<rparr>"

record PlayerSession =
  player_number :: int
  token :: string
  connected :: bool

text \<open>
  \<open>GameState\<close>. \<open>pieces_count\<close> is a dictionary; \<open>rematch_requests\<close> is an attribute
  that \<open>rematch_game\<close> adds on first use, so \<open>None\<close> stands for "attribute absent".
\<close>

record GameState =
  game_id :: string
  board :: Board
  phase :: Phase
  status :: GameStatus
  current_player :: int
  player1 :: "PlayerSession option"
  player2 :: "PlayerSession option"
  pieces_count :: "int \<rightharpoonup> int"
  placement_remaining :: int
  chain_capture_piece :: "(int \<times> int) option"
  winner :: "int option"
  game_over :: bool
  total_pieces_placed :: int
  rematch_requests :: "int fset option"

definition get_opponent :: "int \<Rightarrow> int" where
  "get_opponent n = (if n = 1 then 2 else 1)"

definition switch_turn :: "GameState \<Rightarrow> GameState" where
  "switch_turn state =
     (let s1 = state\<lparr>current_player := get_opponent (current_player state)\<rparr>
      in if phase s1 = PLACEMENT then s1\<lparr>placement_remaining := 2\<rparr> else s1)"

text \<open>A board as the program builds it: five rows of five cells.\<close>

definition wf_board :: "Board \<Rightarrow> bool" where
  "wf_board b \<longleftrightarrow> length (cells b) = 5 \<and> list_all (\<lambda>row. length row = 5) (cells b)"

section \<open>Capture rules (app/domain/rules_capture.py)\<close>

text \<open>
  The loop of \<open>check_captures\<close> over the four directions, with the list \<open>captured\<close> as
  accumulator; each \<open>continue\<close> goes on with the remaining directions.
\<close>

fun capture_scan ::
  "GameState \<Rightarrow> int \<Rightarrow> int \<Rightarrow> int \<Rightarrow> (int \<times> int) list \<Rightarrow> (int \<times> int) list
     \<Rightarrow> error + (int \<times> int) list" where
  "capture_scan state x y player [] captured = Inr captured"
| "capture_scan state x y player ((dx, dy) # ds) captured =
     (if \<not> is_valid_position (x + dx) (y + dy)
        then capture_scan state x y player ds captured
      else if \<not> is_valid_position (x + 2 * dx) (y + 2 * dy)
        then capture_scan state x y player ds captured
      else
        (case get (board state) (x + dx) (y + dy) of
           Inl e \<Rightarrow> Inl e
         | Inr c \<Rightarrow>
             if c \<noteq> (if player = 1 then 2 else 1)
               then capture_scan state x y player ds captured
             else if is_refuge (x + dx) (y + dy)
               then capture_scan state x y player ds captured
             else
               (case get (board state) (x + 2 * dx) (y + 2 * dy) of
                  Inl e \<Rightarrow> Inl e
                | Inr c2 \<Rightarrow>
                    if c2 = player
                      then capture_scan state x y player ds (captured @ [(x + dx, y + dy)])
                    else capture_scan state x y player ds captured)))"

definition capture_directions :: "(int \<times> int) list" where
  "capture_directions = [(1, 0), (-1, 0), (0, 1), (0, -1)]"

definition check_captures :: "GameState \<Rightarrow> int \<Rightarrow> int \<Rightarrow> int \<Rightarrow> error + (int \<times> int) list" where
  "check_captures state x y player = capture_scan state x y player capture_directions []"

text \<open>\<open>apply_captures\<close>: the loop over the captured cells, mutating the state.
  A mutating function returns the state as the call leaves it together with its
  outcome: what was written before an exception stays written.\<close>

fun apply_captures :: "GameState \<Rightarrow> (int \<times> int) list \<Rightarrow> GameState \<times> (error + unit)" where
  "apply_captures state [] = (state, Inr ())"
| "apply_captures state ((x, y) # captures) =
     (case get (board state) x y of
        Inl e \<Rightarrow> (state, Inl e)
      | Inr player \<Rightarrow>
          (case set_cell (board state) x y EMPTY of
             Inl e \<Rightarrow> (state, Inl e)
           | Inr b \<Rightarrow>
               (case pieces_count state player of
                  None \<Rightarrow> (state\<lparr>board := b\<rparr>, Inl KeyError)
                | Some c \<Rightarrow>
                    apply_captures
                      (state\<lparr>board := b, pieces_count := (pieces_count state)(player \<mapsto> c - 1)\<rparr>)
                      captures)))"

text \<open>
  The first loop of \<open>has_capture_chain\<close>, which is also the loop of
  \<open>get_valid_moves_for_piece\<close>: the in-bounds empty neighbours of \<open>(x, y)\<close>, in the
  order of the directions.
\<close>

definition move_directions :: "(int \<times> int) list" where
  "move_directions = [(0, 1), (0, -1), (1, 0), (-1, 0)]"

fun empty_neighbours ::
  "GameState \<Rightarrow> int \<Rightarrow> int \<Rightarrow> (int \<times> int) list \<Rightarrow> (int \<times> int) list
     \<Rightarrow> error + (int \<times> int) list" where
  "empty_neighbours state x y [] acc = Inr acc"
| "empty_neighbours state x y ((dx, dy) # ds) acc =
     (if is_valid_position (x + dx) (y + dy)
      then (case is_empty (board state) (x + dx) (y + dy) of
              Inl e \<Rightarrow> Inl e
            | Inr free \<Rightarrow>
                if free then empty_neighbours state x y ds (acc @ [(x + dx, y + dy)])
                else empty_neighbours state x y ds acc)
      else empty_neighbours state x y ds acc)"

text \<open>
  The second loop of \<open>has_capture_chain\<close>: move the piece to each candidate cell on the
  board itself, look for captures, move it back, and return at the first capture.
\<close>

fun chain_scan ::
  "GameState \<Rightarrow> int \<Rightarrow> int \<Rightarrow> int \<Rightarrow> (int \<times> int) list \<Rightarrow> GameState \<times> (error + bool)" where
  "chain_scan state x y player [] = (state, Inr False)"
| "chain_scan state x y player ((move_x, move_y) # moves) =
     (case set_cell (board state) x y EMPTY of
        Inl e \<Rightarrow> (state, Inl e)
      | Inr b1 \<Rightarrow>
     (case set_cell b1 move_x move_y player of
        Inl e \<Rightarrow> (state\<lparr>board := b1\<rparr>, Inl e)
      | Inr b2 \<Rightarrow>
     (case check_captures (state\<lparr>board := b2\<rparr>) move_x move_y player of
        Inl e \<Rightarrow> (state\<lparr>board := b2\<rparr>, Inl e)
      | Inr captures \<Rightarrow>
     (case set_cell b2 move_x move_y EMPTY of
        Inl e \<Rightarrow> (state\<lparr>board := b2\<rparr>, Inl e)
      | Inr b3 \<Rightarrow>
     (case set_cell b3 x y player of
        Inl e \<Rightarrow> (state\<lparr>board := b3\<rparr>, Inl e)
      | Inr b4 \<Rightarrow>
          if length captures > 0 then (state\<lparr>board := b4\<rparr>, Inr True)
          else chain_scan (state\<lparr>board := b4\<rparr>) x y player moves)))))"

definition has_capture_chain ::
  "GameState \<Rightarrow> int \<Rightarrow> int \<Rightarrow> int \<Rightarrow> GameState \<times> (error + bool)" where
  "has_capture_chain state x y player =
     (case empty_neighbours state x y move_directions [] of
        Inl e \<Rightarrow> (state, Inl e)
      | Inr possible_moves \<Rightarrow> chain_scan state x y player possible_moves)"

section \<open>Text of the messages\<close>

text \<open>
  Strings are byte lists; the accented letters of the Spanish messages are their two
  UTF-8 bytes. \<open>str_int\<close> is Python's \<open>str\<close> on an integer, as an f-string applies it.
\<close>

definition a_acute :: string where "a_acute = [CHR 0xC3, CHR 0xA1]"
definition i_acute :: string where "i_acute = [CHR 0xC3, CHR 0xAD]"
definition o_acute :: string where "o_acute = [CHR 0xC3, CHR 0xB3]"
definition u_acute :: string where "u_acute = [CHR 0xC3, CHR 0xBA]"

fun str_nat :: "nat \<Rightarrow> string" where
  "str_nat n =
     (if n < 10 then [char_of (48 + n)]
      else str_nat (n div 10) @ [char_of (48 + n mod 10)])"

declare str_nat.simps [simp del]

definition str_int :: "int \<Rightarrow> string" where
  "str_int i = (if i < 0 then CHR ''-'' # str_nat (nat (- i)) else str_nat (nat i))"

section \<open>Placement rules (app/domain/rules_phase1.py)\<close>

definition can_place_piece ::
  "GameState \<Rightarrow> int \<Rightarrow> int \<Rightarrow> int \<Rightarrow> error + (bool \<times> string)" where
  "can_place_piece state x y player =
     (if phase state \<noteq> PLACEMENT
        then Inr (False, ''No est'' @ a_acute @ ''s en la fase de posicionamiento'')
      else if current_player state \<noteq> player
        then Inr (False, ''No es tu turno'')
      else if placement_remaining state \<le> 0
        then Inr (False, ''Ya colocaste todas tus piezas este turno'')
      else if \<not> is_valid_position x y
        then Inr (False, ''Posici'' @ o_acute @ ''n fuera del tablero'')
      else
        (case is_empty (board state) x y of
           Inl e \<Rightarrow> Inl e
         | Inr free \<Rightarrow>
             if \<not> free
               then Inr (False, ''La celda ya est'' @ a_acute @ '' ocupada'')
             else if is_refuge x y
               then Inr (False, ''No se puede colocar en el refugio central'')
             else Inr (True, ''OK'')))"

text \<open>\<open>place_piece\<close> of the rules; the returned flag is \<open>phase_changed\<close>.\<close>

definition place_piece ::
  "GameState \<Rightarrow> int \<Rightarrow> int \<Rightarrow> int \<Rightarrow> GameState \<times> (error + bool)" where
  "place_piece state x y player =
     (case set_cell (board state) x y player of
        Inl e \<Rightarrow> (state, Inl e)
      | Inr b \<Rightarrow>
          (case pieces_count state player of
             None \<Rightarrow> (state\<lparr>board := b\<rparr>, Inl KeyError)
           | Some c \<Rightarrow>
               (let s1 = state\<lparr>board := b,
                               pieces_count := (pieces_count state)(player \<mapsto> c + 1),
                               total_pieces_placed := total_pieces_placed state + 1,
                               placement_remaining := placement_remaining state - 1\<rparr>;
                    s2 = (if placement_remaining s1 = 0 then switch_turn s1 else s1)
                in if total_pieces_placed s2 \<ge> 24
                   then (s2\<lparr>phase := MOVEMENT, chain_capture_piece := None\<rparr>, Inr True)
                   else (s2, Inr False))))"

section \<open>Movement rules (app/domain/rules_phase2.py)\<close>

definition can_move_piece ::
  "GameState \<Rightarrow> int \<Rightarrow> int \<Rightarrow> int \<Rightarrow> int \<Rightarrow> int \<Rightarrow> error + (bool \<times> string)" where
  "can_move_piece state from_x from_y to_x to_y player =
     (if phase state \<noteq> MOVEMENT
        then Inr (False, ''No est'' @ a_acute @ ''s en la fase de movimiento'')
      else if current_player state \<noteq> player
        then Inr (False, ''No es tu turno'')
      else if \<not> is_valid_position from_x from_y
        then Inr (False, ''Posici'' @ o_acute @ ''n origen inv'' @ a_acute @ ''lida'')
      else if \<not> is_valid_position to_x to_y
        then Inr (False, ''Posici'' @ o_acute @ ''n destino inv'' @ a_acute @ ''lida'')
      else
        (case get (board state) from_x from_y of
           Inl e \<Rightarrow> Inl e
         | Inr c \<Rightarrow>
             if c \<noteq> player then Inr (False, ''No es tu pieza'')
             else
               (case is_empty (board state) to_x to_y of
                  Inl e \<Rightarrow> Inl e
                | Inr free \<Rightarrow>
                    if \<not> free
                      then Inr (False, ''El destino no est'' @ a_acute @ '' vac'' @ i_acute @ ''o'')
                    else
                      (let dx = \<bar>to_x - from_x\<bar>; dy = \<bar>to_y - from_y\<bar>
                       in if \<not> ((dx = 1 \<and> dy = 0) \<or> (dx = 0 \<and> dy = 1))
                            then Inr (False,
                              ''Solo puedes mover 1 celda en direcci'' @ o_acute @ ''n ortogonal'')
                          else
                            (case chain_capture_piece state of
                               None \<Rightarrow> Inr (True, ''OK'')
                             | Some (chain_x, chain_y) \<Rightarrow>
                                 if from_x \<noteq> chain_x \<or> from_y \<noteq> chain_y
                                   then Inr (False,
                                     ''Debes continuar moviendo la pieza en ('' @ str_int chain_x
                                       @ '', '' @ str_int chain_y @ '')'')
                                 else Inr (True, ''OK''))))))"

text \<open>\<open>move_piece\<close> of the rules: no check, the piece at the origin goes to the destination.\<close>

definition move_piece ::
  "GameState \<Rightarrow> int \<Rightarrow> int \<Rightarrow> int \<Rightarrow> int \<Rightarrow> GameState \<times> (error + unit)" where
  "move_piece state from_x from_y to_x to_y =
     (case get (board state) from_x from_y of
        Inl e \<Rightarrow> (state, Inl e)
      | Inr player \<Rightarrow>
          (case set_cell (board state) from_x from_y EMPTY of
             Inl e \<Rightarrow> (state, Inl e)
           | Inr b1 \<Rightarrow>
               (case set_cell b1 to_x to_y player of
                  Inl e \<Rightarrow> (state\<lparr>board := b1\<rparr>, Inl e)
                | Inr b2 \<Rightarrow> (state\<lparr>board := b2\<rparr>, Inr ()))))"

definition get_valid_moves_for_piece ::
  "GameState \<Rightarrow> int \<Rightarrow> int \<Rightarrow> error + (int \<times> int) list" where
  "get_valid_moves_for_piece state x y =
     (if phase state \<noteq> MOVEMENT then Inr []
      else
        (case get (board state) x y of
           Inl e \<Rightarrow> Inl e
         | Inr player \<Rightarrow>
             if player = EMPTY then Inr []
             else empty_neighbours state x y move_directions []))"

text \<open>
  \<open>get_all_valid_moves\<close> returns a dictionary from origins to destinations: here the
  list of its items in insertion order. Each cell is visited once, so no key is
  written twice. The two nested \<open>range(5)\<close> loops visit \<open>board_positions\<close>.
\<close>

type_synonym moves_dict = "((int \<times> int) \<times> (int \<times> int) list) list"

definition board_positions :: "(int \<times> int) list" where
  "board_positions = concat (map (\<lambda>y. map (\<lambda>x. (x, y)) [0..4]) [0..4])"

fun all_moves_scan ::
  "GameState \<Rightarrow> int \<Rightarrow> (int \<times> int) list \<Rightarrow> moves_dict \<Rightarrow> error + moves_dict" where
  "all_moves_scan state player [] all_moves = Inr all_moves"
| "all_moves_scan state player ((x, y) # ps) all_moves =
     (case get (board state) x y of
        Inl e \<Rightarrow> Inl e
      | Inr c \<Rightarrow>
          if c = player
          then (case get_valid_moves_for_piece state x y of
                  Inl e \<Rightarrow> Inl e
                | Inr moves \<Rightarrow>
                    if moves \<noteq> [] then all_moves_scan state player ps (all_moves @ [((x, y), moves)])
                    else all_moves_scan state player ps all_moves)
          else all_moves_scan state player ps all_moves)"

definition get_all_valid_moves :: "GameState \<Rightarrow> int \<Rightarrow> error + moves_dict" where
  "get_all_valid_moves state player =
     (if phase state \<noteq> MOVEMENT then Inr []
      else
        (case chain_capture_piece state of
           Some (x, y) \<Rightarrow>
             (case get_valid_moves_for_piece state x y of
                Inl e \<Rightarrow> Inl e
              | Inr moves \<Rightarrow> if moves \<noteq> [] then Inr [((x, y), moves)] else Inr [])
         | None \<Rightarrow> all_moves_scan state player board_positions []))"

section \<open>Victory rules (app/domain/rules_victory.py)\<close>

definition check_victory :: "GameState \<Rightarrow> error + (bool \<times> int option \<times> string)" where
  "check_victory state =
     (if phase state \<noteq> MOVEMENT then Inr (False, None, [])
      else
        (case pieces_count state 1 of
           None \<Rightarrow> Inl KeyError
         | Some p1_pieces \<Rightarrow>
        (case pieces_count state 2 of
           None \<Rightarrow> Inl KeyError
         | Some p2_pieces \<Rightarrow>
             if p1_pieces < 2 then Inr (True, Some 2, ''Jugador 1 tiene menos de 2 piezas'')
             else if p2_pieces < 2 then Inr (True, Some 1, ''Jugador 2 tiene menos de 2 piezas'')
             else
               (case get_all_valid_moves state (current_player state) of
                  Inl e \<Rightarrow> Inl e
                | Inr current_moves \<Rightarrow>
                    if length current_moves = 0 then
                      (if p1_pieces > p2_pieces
                         then Inr (True, Some 1,
                           ''Jugador 2 bloqueado, Jugador 1 tiene m'' @ a_acute @ ''s piezas'')
                       else if p2_pieces > p1_pieces
                         then Inr (True, Some 2,
                           ''Jugador 1 bloqueado, Jugador 2 tiene m'' @ a_acute @ ''s piezas'')
                       else Inr (True, Some (if current_player state = 1 then 2 else 1),
                           ''Jugador '' @ str_int (current_player state)
                             @ '' bloqueado, empate en piezas''))
                    else Inr (False, None, [])))))"

section \<open>Results of an action (app/domain/models.py, app/services/game_service.py)\<close>

text \<open>
  \<open>MoveResult\<close>; the fields \<open>game_over\<close> and \<open>winner\<close> carry the prefix \<open>r_\<close>, the
  names without it being fields of \<open>GameState\<close>.
\<close>

record MoveResult =
  success :: bool
  captures :: "(int \<times> int) list"
  extra_turn :: bool
  phase_changed :: bool
  r_game_over :: bool
  r_winner :: "int option"
  message :: string

text \<open>The dictionary that \<open>_serialize_state\<close> builds, key by key.\<close>

record StateView =
  v_gameId :: string
  v_board :: "int list list"
  v_phase :: Phase
  v_status :: GameStatus
  v_currentPlayer :: int
  v_yourPlayerNumber :: int
  v_isYourTurn :: bool
  v_piecesCount :: "int \<rightharpoonup> int"
  v_placementRemaining :: int
  v_chainCapturePiece :: "(int \<times> int) option"
  v_winner :: "int option"
  v_gameOver :: bool

definition serialize_state :: "GameState \<Rightarrow> int \<Rightarrow> StateView" where
  "serialize_state state player_num =
     \<lparr>v_gameId = game_id state,
      v_board = cells (board state),
      v_phase = phase state,
      v_status = status state,
      v_currentPlayer = current_player state,
      v_yourPlayerNumber = player_num,
      v_isYourTurn = (current_player state = player_num),
      v_piecesCount = pieces_count state,
      v_placementRemaining = placement_remaining state,
      v_chainCapturePiece = chain_capture_piece state,
      v_winner = winner state,
      v_gameOver = game_over state\<rparr>"

text \<open>The answer of \<open>create_game\<close>, \<open>join_game\<close> and \<open>reconnect_game\<close>.\<close>

record JoinResult =
  gameId :: string
  playerToken :: string
  playerNumber :: int
  statusValue :: GameStatus

type_synonym ActionResponse = "StateView \<times> MoveResult"

section \<open>The game service (app/services/game_service.py)\<close>

text \<open>
  The repository (app/services/repo-memory) is a dictionary from game identifiers
  to sessions. A session is created under its own \<open>game_id\<close>, which nothing assigns
  afterwards, and the service mutates the session object it fetched: the entry under
  the requested identifier is the session as the call leaves it, with or without a
  later \<open>save\<close>, and also when the call raises. Each operation is therefore a function
  on the session, returning the session as it leaves it and the outcome, wrapped by
  the lookup in the repository.

  Identifiers and tokens come from \<open>uuid4\<close> and the starting player from
  \<open>random.choice([1, 2])\<close>: they are arguments of the model. The notifications pushed
  to the web sockets read the session and write nothing to it; they are left out.
\<close>

type_synonym repo = "string \<rightharpoonup> GameState"

definition has_token :: "PlayerSession option \<Rightarrow> string \<Rightarrow> bool" where
  "has_token slot t = (case slot of None \<Rightarrow> False | Some p \<Rightarrow> token p = t)"

definition not_found :: error where
  "not_found = HTTPException 404 ''Partida no encontrada''"

definition invalid_token :: error where
  "invalid_token = HTTPException 403 (''Token inv'' @ a_acute @ ''lido'')"

text \<open>The session that \<open>create_game\<close> builds, and \<open>create_game\<close> storing it.\<close>

definition waiting_session :: "string \<Rightarrow> string \<Rightarrow> GameState" where
  "waiting_session new_id player_token =
     \<lparr>game_id = new_id,
      board = new_board,
      phase = PLACEMENT,
      status = WAITING,
      current_player = 1,
      player1 = Some \<lparr>player_number = 1, token = player_token, connected = True\<rparr>,
      player2 = None,
      pieces_count = [1 \<mapsto> 0, 2 \<mapsto> 0],
      placement_remaining = 2,
      chain_capture_piece = None,
      winner = None,
      game_over = False,
      total_pieces_placed = 0,
      rematch_requests = None\<rparr>"

definition create_game :: "repo \<Rightarrow> string \<Rightarrow> string \<Rightarrow> repo \<times> JoinResult" where
  "create_game games new_id player_token =
     (let state = waiting_session new_id player_token
      in (games(game_id state \<mapsto> state),
          \<lparr>gameId = new_id, playerToken = player_token, playerNumber = 1,
           statusValue = WAITING\<rparr>))"

text \<open>
  \<open>join_game\<close> on the session. \<open>if existing_token:\<close> is Python truthiness: \<open>None\<close>
  and the empty string are both false. \<open>join_new\<close> is the part after the reconnection
  shortcut.
\<close>

definition truthy :: "string option \<Rightarrow> bool" where
  "truthy t = (case t of None \<Rightarrow> False | Some s \<Rightarrow> s \<noteq> [])"

definition full_or_finished :: error where
  "full_or_finished =
     HTTPException 400 (''La partida ya est'' @ a_acute @ '' llena o terminada'')"

definition join_new ::
  "GameState \<Rightarrow> string \<Rightarrow> string option \<Rightarrow> string \<Rightarrow> int
     \<Rightarrow> GameState \<times> (error + JoinResult)" where
  "join_new state gid existing_token new_token first =
     (if status state \<noteq> WAITING
      then (case player2 state of
              Some p2 \<Rightarrow>
                if \<not> truthy existing_token
                  then (state, Inr \<lparr>gameId = gid, playerToken = token p2, playerNumber = 2,
                                    statusValue = status state\<rparr>)
                else (state, Inl full_or_finished)
            | None \<Rightarrow> (state, Inl full_or_finished))
      else
        (state\<lparr>player2 := Some \<lparr>player_number = 2, token = new_token, connected = True\<rparr>,
               status := PLAYING,
               current_player := first\<rparr>,
         Inr \<lparr>gameId = gid, playerToken = new_token, playerNumber = 2,
              statusValue = PLAYING\<rparr>))"

definition join_session ::
  "GameState \<Rightarrow> string \<Rightarrow> string option \<Rightarrow> string \<Rightarrow> int
     \<Rightarrow> GameState \<times> (error + JoinResult)" where
  "join_session state gid existing_token new_token first =
     (case existing_token of
        None \<Rightarrow> join_new state gid existing_token new_token first
      | Some t \<Rightarrow>
          if t \<noteq> [] \<and> has_token (player1 state) t
            then (state, Inr \<lparr>gameId = gid, playerToken = t, playerNumber = 1,
                              statusValue = status state\<rparr>)
          else if t \<noteq> [] \<and> has_token (player2 state) t
            then (state, Inr \<lparr>gameId = gid, playerToken = t, playerNumber = 2,
                              statusValue = status state\<rparr>)
          else join_new state gid existing_token new_token first)"

definition join_game ::
  "repo \<Rightarrow> string \<Rightarrow> string option \<Rightarrow> string \<Rightarrow> int \<Rightarrow> repo \<times> (error + JoinResult)" where
  "join_game games gid existing_token new_token first =
     (case games gid of
        None \<Rightarrow> (games, Inl not_found)
      | Some state \<Rightarrow>
          (case join_session state gid existing_token new_token first of
             (state', out) \<Rightarrow> (games(gid \<mapsto> state'), out)))"

text \<open>
  \<open>_get_and_validate_game\<close> after the lookup, and \<open>_get_player_number\<close>: both look for
  the token in slot 1, then in slot 2.
\<close>

definition validate_token :: "GameState \<Rightarrow> string \<Rightarrow> error + unit" where
  "validate_token state player_token =
     (if has_token (player1 state) player_token then Inr ()
      else if has_token (player2 state) player_token then Inr ()
      else Inl invalid_token)"

definition get_player_number :: "GameState \<Rightarrow> string \<Rightarrow> error + int" where
  "get_player_number state player_token =
     (if has_token (player1 state) player_token then Inr 1
      else if has_token (player2 state) player_token then Inr 2
      else Inl invalid_token)"

text \<open>
  The block that follows each call of \<open>check_victory\<close> in the service: on a winner, the
  result and the session are marked finished.
\<close>

definition victory_step ::
  "GameState \<Rightarrow> MoveResult \<Rightarrow> GameState \<times> (error + MoveResult)" where
  "victory_step state result =
     (case check_victory state of
        Inl e \<Rightarrow> (state, Inl e)
      | Inr (has_winner, w, reason) \<Rightarrow>
          if has_winner
            then (state\<lparr>winner := w, game_over := True, status := FINISHED\<rparr>,
                  Inr (result\<lparr>r_game_over := True, r_winner := w, message := reason\<rparr>))
          else (state, Inr result))"

text \<open>\<open>GameService.place_piece\<close> on the session.\<close>

definition place_session ::
  "GameState \<Rightarrow> string \<Rightarrow> int \<Rightarrow> int \<Rightarrow> GameState \<times> (error + ActionResponse)" where
  "place_session state player_token x y =
     (case validate_token state player_token of
        Inl e \<Rightarrow> (state, Inl e)
      | Inr _ \<Rightarrow>
     (case get_player_number state player_token of
        Inl e \<Rightarrow> (state, Inl e)
      | Inr player_num \<Rightarrow>
     (case can_place_piece state x y player_num of
        Inl e \<Rightarrow> (state, Inl e)
      | Inr (can_place, msg) \<Rightarrow>
          if \<not> can_place then (state, Inl (HTTPException 400 msg))
          else
            (case place_piece state x y player_num of
               (s1, Inl e) \<Rightarrow> (s1, Inl e)
             | (s1, Inr changed) \<Rightarrow>
                 (let result = \<lparr>success = True, captures = [], extra_turn = False,
                                 phase_changed = changed, r_game_over = False,
                                 r_winner = None,
                                 message = ''Pieza colocada exitosamente''\<rparr>
                  in if \<not> phase_changed result
                     then (case victory_step s1 result of
                             (s2, Inl e) \<Rightarrow> (s2, Inl e)
                           | (s2, Inr result') \<Rightarrow>
                               (s2, Inr (serialize_state s2 player_num, result')))
                     else (s1, Inr (serialize_state s1 player_num, result)))))))"

definition GameService_place_piece ::
  "repo \<Rightarrow> string \<Rightarrow> string \<Rightarrow> int \<Rightarrow> int \<Rightarrow> repo \<times> (error + ActionResponse)" where
  "GameService_place_piece games gid player_token x y =
     (case games gid of
        None \<Rightarrow> (games, Inl not_found)
      | Some state \<Rightarrow>
          (case place_session state player_token x y of
             (state', out) \<Rightarrow> (games(gid \<mapsto> state'), out)))"

text \<open>
  \<open>GameService.move_piece\<close>, in three parts. First the captures and the turn: with a
  capture and a further capture in reach the piece is pinned and the turn stays,
  otherwise the pointer is cleared and the turn switches. The flag is \<open>extra_turn\<close>.
\<close>

definition resolve_turn ::
  "GameState \<Rightarrow> int \<Rightarrow> int \<Rightarrow> int \<Rightarrow> (int \<times> int) list \<Rightarrow> GameState \<times> (error + bool)" where
  "resolve_turn state to_x to_y player_num caps =
     (if length caps > 0 then
        (case apply_captures state caps of
           (s1, Inl e) \<Rightarrow> (s1, Inl e)
         | (s1, Inr _) \<Rightarrow>
             (case has_capture_chain s1 to_x to_y player_num of
                (s2, Inl e) \<Rightarrow> (s2, Inl e)
              | (s2, Inr has_chain) \<Rightarrow>
                  if has_chain
                    then (s2\<lparr>chain_capture_piece := Some (to_x, to_y)\<rparr>, Inr True)
                  else (switch_turn (s2\<lparr>chain_capture_piece := None\<rparr>), Inr False)))
      else (switch_turn (state\<lparr>chain_capture_piece := None\<rparr>), Inr False))"

text \<open>
  Then the victory check, and the second one that the service runs when the game is not
  over and no extra turn was granted.
\<close>

definition conclude_move ::
  "GameState \<Rightarrow> MoveResult \<Rightarrow> GameState \<times> (error + MoveResult)" where
  "conclude_move state result =
     (case victory_step state result of
        (s1, Inl e) \<Rightarrow> (s1, Inl e)
      | (s1, Inr result1) \<Rightarrow>
          if r_game_over result1 then (s1, Inr result1)
          else if \<not> extra_turn result1 then victory_step s1 result1
          else (s1, Inr result1))"

definition move_session ::
  "GameState \<Rightarrow> string \<Rightarrow> int \<Rightarrow> int \<Rightarrow> int \<Rightarrow> int
     \<Rightarrow> GameState \<times> (error + ActionResponse)" where
  "move_session state player_token from_x from_y to_x to_y =
     (case validate_token state player_token of
        Inl e \<Rightarrow> (state, Inl e)
      | Inr _ \<Rightarrow>
     (case get_player_number state player_token of
        Inl e \<Rightarrow> (state, Inl e)
      | Inr player_num \<Rightarrow>
     (case can_move_piece state from_x from_y to_x to_y player_num of
        Inl e \<Rightarrow> (state, Inl e)
      | Inr (can_move, msg) \<Rightarrow>
          if \<not> can_move then (state, Inl (HTTPException 400 msg))
          else
            (case move_piece state from_x from_y to_x to_y of
               (s1, Inl e) \<Rightarrow> (s1, Inl e)
             | (s1, Inr _) \<Rightarrow>
            (case check_captures s1 to_x to_y player_num of
               Inl e \<Rightarrow> (s1, Inl e)
             | Inr caps \<Rightarrow>
            (case resolve_turn s1 to_x to_y player_num caps of
               (s2, Inl e) \<Rightarrow> (s2, Inl e)
             | (s2, Inr extra) \<Rightarrow>
            (case conclude_move s2
                    \<lparr>success = True, captures = caps, extra_turn = extra,
                     phase_changed = False, r_game_over = False, r_winner = None,
                     message = []\<rparr> of
               (s3, Inl e) \<Rightarrow> (s3, Inl e)
             | (s3, Inr result) \<Rightarrow>
                 (s3, Inr (serialize_state s3 player_num, result)))))))))"

definition GameService_move_piece ::
  "repo \<Rightarrow> string \<Rightarrow> string \<Rightarrow> int \<Rightarrow> int \<Rightarrow> int \<Rightarrow> int
     \<Rightarrow> repo \<times> (error + ActionResponse)" where
  "GameService_move_piece games gid player_token from_x from_y to_x to_y =
     (case games gid of
        None \<Rightarrow> (games, Inl not_found)
      | Some state \<Rightarrow>
          (case move_session state player_token from_x from_y to_x to_y of
             (state', out) \<Rightarrow> (games(gid \<mapsto> state'), out)))"

text \<open>
  \<open>leave_game\<close>: the slot of the leaving player is cleared; with both slots empty the
  session is deleted, otherwise it is finished and the remaining player wins. The
  answer is the message and the flag \<open>gameDeleted\<close>.
\<close>

definition leave_rest :: "GameState \<Rightarrow> GameState option \<times> (error + string \<times> bool)" where
  "leave_rest state =
     (if player1 state = None \<and> player2 state = None
        then (None, Inr (''Partida eliminada (ambos jugadores abandonaron)'', True))
      else
        (let s1 = state\<lparr>status := FINISHED, game_over := True\<rparr>;
             s2 = (if player1 s1 \<noteq> None then s1\<lparr>winner := Some 1\<rparr>
                   else if player2 s1 \<noteq> None then s1\<lparr>winner := Some 2\<rparr>
                   else s1)
         in (Some s2, Inr (''Has abandonado la partida'', False))))"

definition leave_session ::
  "GameState \<Rightarrow> string \<Rightarrow> GameState option \<times> (error + string \<times> bool)" where
  "leave_session state player_token =
     (if has_token (player1 state) player_token then leave_rest (state\<lparr>player1 := None\<rparr>)
      else if has_token (player2 state) player_token then leave_rest (state\<lparr>player2 := None\<rparr>)
      else (Some state, Inl invalid_token))"

definition leave_game ::
  "repo \<Rightarrow> string \<Rightarrow> string \<Rightarrow> repo \<times> (error + string \<times> bool)" where
  "leave_game games gid player_token =
     (case games gid of
        None \<Rightarrow> (games, Inl not_found)
      | Some state \<Rightarrow>
          (case leave_session state player_token of
             (state', out) \<Rightarrow> (games(gid := state'), out)))"

text \<open>
  \<open>rematch_game\<close>: the answer is the message, the flag \<open>rematchStarted\<close> and, when the
  rematch starts, the starting player. The request set is created on first use. With
  one request only, the opponent's token is read for the notification, which raises
  when that slot is empty; the request is already recorded then.
\<close>

definition rematch_session ::
  "GameState \<Rightarrow> string \<Rightarrow> int \<Rightarrow> GameState \<times> (error + string \<times> bool \<times> int option)" where
  "rematch_session state player_token first =
     (if \<not> game_over state
        then (state, Inl (HTTPException 400 (''El juego a'' @ u_acute @ ''n no ha terminado'')))
      else
        (case get_player_number state player_token of
           Inl e \<Rightarrow> (state, Inl e)
         | Inr player_num \<Rightarrow>
             (let requests =
                    finsert player_num
                      (case rematch_requests state of None \<Rightarrow> {||} | Some r \<Rightarrow> r);
                  s1 = state\<lparr>rematch_requests := Some requests\<rparr>
              in if fcard requests \<ge> 2 then
                   (s1\<lparr>board := new_board,
                       phase := PLACEMENT,
                       status := PLAYING,
                       current_player := first,
                       pieces_count := [1 \<mapsto> 0, 2 \<mapsto> 0],
                       placement_remaining := 2,
                       total_pieces_placed := 0,
                       winner := None,
                       game_over := False,
                       chain_capture_piece := None,
                       rematch_requests := Some {||}\<rparr>,
                    Inr (''Rematch iniciado'', True, Some first))
                 else if (if player_num = 1 then player2 s1 else player1 s1) = None
                   then (s1, Inl AttributeError)
                 else (s1, Inr (''Esperando confirmaci'' @ o_acute @ ''n del oponente'',
                                False, None)))))"

definition rematch_game ::
  "repo \<Rightarrow> string \<Rightarrow> string \<Rightarrow> int
     \<Rightarrow> repo \<times> (error + string \<times> bool \<times> int option)" where
  "rematch_game games gid player_token first =
     (case games gid of
        None \<Rightarrow> (games, Inl not_found)
      | Some state \<Rightarrow>
          (case rematch_session state player_token first of
             (state', out) \<Rightarrow> (games(gid \<mapsto> state'), out)))"

section \<open>Auxiliary notions for the proofs\<close>

text \<open>The board with one cell overwritten, for positions in range.\<close>

definition upd :: "Board \<Rightarrow> int \<Rightarrow> int \<Rightarrow> int \<Rightarrow> Board" where
  "upd b x y v = b\<lparr>cells := (cells b)[nat y := (cells b ! nat y)[nat x := v]]\<rparr>"

text \<open>The cell a direction captures, as the specification words it.\<close>

definition custody :: "GameState \<Rightarrow> int \<Rightarrow> int \<Rightarrow> int \<Rightarrow> int \<times> int \<Rightarrow> bool" where
  "custody state x y player d \<longleftrightarrow>
     (case d of (dx, dy) \<Rightarrow>
        is_valid_position (x + dx) (y + dy)
      \<and> is_valid_position (x + 2 * dx) (y + 2 * dy)
      \<and> get (board state) (x + dx) (y + dy) = Inr (get_opponent player)
      \<and> \<not> is_refuge (x + dx) (y + dy)
      \<and> get (board state) (x + 2 * dx) (y + 2 * dy) = Inr player)"

text \<open>A direction that leads to an in-bounds empty cell.\<close>

definition free_step :: "GameState \<Rightarrow> int \<Rightarrow> int \<Rightarrow> int \<times> int \<Rightarrow> bool" where
  "free_step state x y d \<longleftrightarrow>
     (case d of (dx, dy) \<Rightarrow>
        is_valid_position (x + dx) (y + dy) \<and> get (board state) (x + dx) (y + dy) = Inr EMPTY)"

text \<open>
  The chain condition in the words of the specification: the piece of \<open>player\<close> on
  \<open>(x, y)\<close> has an in-bounds empty orthogonal neighbour such that, with the piece
  relocated there, \<open>check_captures\<close> from that neighbour finds a capture.
\<close>

definition can_capture_again :: "GameState \<Rightarrow> int \<Rightarrow> int \<Rightarrow> int \<Rightarrow> bool" where
  "can_capture_again state x y player \<longleftrightarrow>
     list_ex (\<lambda>(dx, dy).
         is_valid_position (x + dx) (y + dy)
       \<and> get (board state) (x + dx) (y + dy) = Inr EMPTY
       \<and> (case check_captures
                  (state\<lparr>board := upd (upd (board state) x y EMPTY) (x + dx) (y + dy) player\<rparr>)
                  (x + dx) (y + dy) player of
             Inr cs \<Rightarrow> cs \<noteq> []
           | Inl e \<Rightarrow> False))
       [(0, 1), (0, -1), (1, 0), (-1, 0)]"

section \<open>Example sessions\<close>

text \<open>
  A session in the movement phase on a given board, both players seated, with the
  piece counts, the player to move and the chain pointer as given.
\<close>

definition movement_session ::
  "int list list \<Rightarrow> int \<Rightarrow> int \<Rightarrow> int \<Rightarrow> (int \<times> int) option \<Rightarrow> GameState" where
  "movement_session rows n1 n2 turn pin =
     \<lparr>game_id = ''GAME0001'',
      board = \<lparr>cells = rows\<rparr>,
      phase = MOVEMENT,
      status = PLAYING,
      current_player = turn,
      player1 = Some \<lparr>player_number = 1, token = ''token-one'', connected = True\<rparr>,
      player2 = Some \<lparr>player_number = 2, token = ''token-two'', connected = True\<rparr>,
      pieces_count = [1 \<mapsto> n1, 2 \<mapsto> n2],
      placement_remaining = 2,
      chain_capture_piece = pin,
      winner = None,
      game_over = False,
      total_pieces_placed = 24,
      rematch_requests = None\<rparr>"

text \<open>Player 1 has just landed on \<open>(0, 0)\<close> and holds two enemy pieces in custody.\<close>

definition custody_rows :: "int list list" where
  "custody_rows =
     [[1, 2, 1, 0, 0],
      [2, 0, 0, 0, 0],
      [1, 0, 0, 0, 0],
      [0, 0, 0, 0, 0],
      [0, 0, 0, 0, 0]]"

text \<open>
  The piece of player 1 on \<open>(0, 0)\<close> can step to \<open>(0, 1)\<close>, the first neighbour tried, and
  capture \<open>(1, 1)\<close> from there.
\<close>

definition chain_rows :: "int list list" where
  "chain_rows =
     [[1, 0, 0, 0, 0],
      [0, 2, 1, 0, 0],
      [0, 0, 0, 0, 2],
      [0, 0, 0, 0, 0],
      [0, 0, 0, 0, 0]]"

text \<open>
  Player 1 holds the six cells of a corner block and player 2 the five cells around it:
  no piece of player 1 has an empty neighbour.
\<close>

definition blocked_rows :: "int list list" where
  "blocked_rows =
     [[1, 1, 1, 2, 0],
      [1, 1, 1, 2, 0],
      [2, 2, 2, 0, 0],
      [0, 0, 0, 0, 0],
      [0, 0, 0, 0, 0]]"

text \<open>A repository holding one session, in the movement phase.\<close>

definition example_repo :: repo where
  "example_repo = [''GAME0001'' \<mapsto> movement_session chain_rows 2 2 1 None]"


section \<open>Sessions reached by requests\<close>

text \<open>
  The requests that write to a session, and the session as each leaves it. A request
  that raises leaves the session as the raise found it; \<open>leave_game\<close> by the last
  player deletes the session (\<open>None\<close>). \<open>run\<close> applies a list of requests in order.
\<close>

datatype action =
    Join "string option" string int
  | Place string int int
  | Move string int int int int
  | Leave string
  | Rematch string int

fun step :: "GameState \<Rightarrow> action \<Rightarrow> GameState option" where
  "step s (Join t new_token first) = Some (fst (join_session s (game_id s) t new_token first))"
| "step s (Place tok x y) = Some (fst (place_session s tok x y))"
| "step s (Move tok fx fy tx ty) = Some (fst (move_session s tok fx fy tx ty))"
| "step s (Leave tok) = fst (leave_session s tok)"
| "step s (Rematch tok first) = Some (fst (rematch_session s tok first))"

fun run :: "GameState \<Rightarrow> action list \<Rightarrow> GameState option" where
  "run s [] = Some s"
| "run s (a # as) = (case step s a of None \<Rightarrow> None | Some s' \<Rightarrow> run s' as)"

text \<open>The starting player is drawn from \<open>[1, 2]\<close>.\<close>

fun drawn :: "action \<Rightarrow> bool" where
  "drawn (Join t new_token first) = (first = 1 \<or> first = 2)"
| "drawn (Rematch tok first) = (first = 1 \<or> first = 2)"
| "drawn _ = True"

text \<open>A rematch request that completes the handshake and restarts the game.\<close>

fun restarts :: "GameState \<Rightarrow> action \<Rightarrow> bool" where
  "restarts s (Rematch tok first) =
     (case snd (rematch_session s tok first) of
        Inr (msg, started, p) \<Rightarrow> started
      | Inl e \<Rightarrow> False)"
| "restarts s _ = False"

fun no_restart :: "GameState \<Rightarrow> action list \<Rightarrow> bool" where
  "no_restart s [] = True"
| "no_restart s (a # as) =
     (\<not> restarts s a \<and> (case step s a of None \<Rightarrow> True | Some s' \<Rightarrow> no_restart s' as))"

text \<open>
  What holds of every session reached from \<open>create_game\<close>: the board is five by five,
  both counters exist, the player to move is 1 or 2, no piece is pinned during
  placement, a waiting session is still in placement with slot 2 empty and at most the
  first two pieces placed, and a pinned cell is on the board and holds a piece of the
  player to move.
\<close>

definition session_inv :: "GameState \<Rightarrow> bool" where
  "session_inv s \<longleftrightarrow>
     wf_board (board s)
   \<and> pieces_count s 1 \<noteq> None \<and> pieces_count s 2 \<noteq> None
   \<and> (current_player s = 1 \<or> current_player s = 2)
   \<and> (phase s = PLACEMENT \<longrightarrow> chain_capture_piece s = None)
   \<and> (status s = WAITING \<longrightarrow>
        phase s = PLACEMENT \<and> player2 s = None
      \<and> (current_player s = 1 \<longrightarrow> total_pieces_placed s + placement_remaining s \<le> 2))
   \<and> (case chain_capture_piece s of
        None \<Rightarrow> True
      | Some (x, y) \<Rightarrow> is_valid_position x y \<and> get (board s) x y = Inr (current_player s))"

section \<open>Two games, request by request\<close>

text \<open>
  Both games start the same way: player 2 joins, player 1 is drawn to start, and the
  players place two pieces each in turn until the twenty-four cells around the refuge
  are full. \<open>placements\<close> turns the cells of player 1 and of player 2, in the order
  of placing, into the requests.
\<close>

fun placements :: "(int \<times> int) list \<Rightarrow> (int \<times> int) list \<Rightarrow> action list" where
  "placements ((a, b) # (c, d) # ps) ((e, f) # (g, h) # qs) =
     Place ''token-one'' a b # Place ''token-one'' c d
       # Place ''token-two'' e f # Place ''token-two'' g h # placements ps qs"
| "placements ps qs = []"

definition fill_board :: "(int \<times> int) list \<Rightarrow> (int \<times> int) list \<Rightarrow> action list" where
  "fill_board ps qs = Join None ''token-two'' 1 # placements ps qs"

text \<open>
  First game. Player 1 steps from \<open>(2, 1)\<close> into the refuge, captures \<open>(1, 2)\<close> against
  the piece on \<open>(0, 2)\<close>, and could step back and capture \<open>(3, 1)\<close> against \<open>(4, 1)\<close>.
\<close>

definition chain_game :: "action list" where
  "chain_game =
     fill_board
       [(0, 0), (1, 0), (0, 1), (2, 1), (4, 1), (0, 2), (3, 2), (4, 2), (2, 3), (0, 4),
        (1, 4), (4, 4)]
       [(2, 0), (3, 0), (4, 0), (1, 1), (3, 1), (1, 2), (0, 3), (1, 3), (3, 3), (4, 3),
        (2, 4), (3, 4)]
     @ [Move ''token-one'' 2 1 2 2]"

text \<open>
  Second game. Player 1 steps from \<open>(2, 1)\<close> into the refuge without a capture; the
  only empty cell is then \<open>(2, 1)\<close>, which no piece of player 2 touches: player 2 is
  blocked, the counts are twelve each, and player 1 wins.
\<close>

definition blocked_opening :: "action list" where
  "blocked_opening =
     fill_board
       [(0, 0), (1, 0), (2, 0), (3, 0), (4, 0), (0, 1), (1, 1), (2, 1), (3, 1), (1, 2),
        (3, 2), (2, 3)]
       [(4, 1), (0, 2), (4, 2), (0, 3), (1, 3), (3, 3), (4, 3), (0, 4), (1, 4), (2, 4),
        (3, 4), (4, 4)]"

text \<open>
  The session after a list of requests on a new session; the requests above never
  delete it.
\<close>

definition after :: "action list \<Rightarrow> GameState" where
  "after acts =
     (case run (waiting_session ''GAME0001'' ''token-one'') acts of
        Some s \<Rightarrow> s
      | None \<Rightarrow> waiting_session ''GAME0001'' ''token-one'')"

section \<open>Reading and writing a well-formed board\<close>

text \<open>The definitions that evaluate a board access on a concrete board.\<close>

lemmas board_eval = get_def set_cell_def py_index_def py_store_def is_valid_position_def
  is_refuge_def is_empty_def wf_board_def

lemma py_index_in_range:
  "0 \<le> i \<Longrightarrow> i < int (length xs) \<Longrightarrow> py_index xs i = Inr (xs ! nat i)"
  by (simp add: py_index_def)

lemma py_store_in_range:
  "0 \<le> i \<Longrightarrow> i < int (length xs) \<Longrightarrow> py_store xs i v = Inr (xs[nat i := v])"
  by (simp add: py_store_def)

lemma wf_board_row:
  "wf_board b \<Longrightarrow> 0 \<le> y \<Longrightarrow> y < 5 \<Longrightarrow> length (cells b ! nat y) = 5"
  by (simp add: wf_board_def list_all_length)

lemma get_valid:
  assumes "wf_board b" and "is_valid_position x y"
  shows "get b x y = Inr (cells b ! nat y ! nat x)"
proof -
  from assms have y: "0 \<le> y" "y < 5" and x: "0 \<le> x" "x < 5"
    by (simp_all add: is_valid_position_def)
  from assms(1) have len: "length (cells b) = 5"
    by (simp add: wf_board_def)
  have row: "length (cells b ! nat y) = 5"
    using assms(1) y by (rule wf_board_row)
  show ?thesis
    using y x len row by (simp add: get_def py_index_in_range)
qed

lemma set_cell_valid:
  assumes "wf_board b" and "is_valid_position x y"
  shows "set_cell b x y v = Inr (upd b x y v)"
proof -
  from assms have y: "0 \<le> y" "y < 5" and x: "0 \<le> x" "x < 5"
    by (simp_all add: is_valid_position_def)
  from assms(1) have len: "length (cells b) = 5"
    by (simp add: wf_board_def)
  have row: "length (cells b ! nat y) = 5"
    using assms(1) y by (rule wf_board_row)
  show ?thesis
    using y x len row by (simp add: set_cell_def upd_def py_index_in_range py_store_in_range)
qed

lemma wf_board_upd: "wf_board b \<Longrightarrow> wf_board (upd b x y v)"
  by (cases "nat y < length (cells b)")
     (auto simp: wf_board_def upd_def list_all_length nth_list_update)

lemma cell_upd:
  assumes "wf_board b" and "is_valid_position x y" and "is_valid_position x' y'"
  shows "cells (upd b x y v) ! nat y' ! nat x' =
           (if x' = x \<and> y' = y then v else cells b ! nat y' ! nat x')"
proof -
  from assms have y: "0 \<le> y" "y < 5" and x: "0 \<le> x" "x < 5"
    and y': "0 \<le> y'" "y' < 5" and x': "0 \<le> x'" "x' < 5"
    by (simp_all add: is_valid_position_def)
  from assms(1) have len: "length (cells b) = 5"
    by (simp add: wf_board_def)
  have row: "length (cells b ! nat y) = 5"
    using assms(1) y by (rule wf_board_row)
  show ?thesis
    using y x y' x' len row by (auto simp: upd_def nth_list_update)
qed

lemma get_upd:
  assumes "wf_board b" and "is_valid_position x y" and "is_valid_position x' y'"
  shows "get (upd b x y v) x' y' = (if x' = x \<and> y' = y then Inr v else get b x' y')"
  using assms by (simp add: get_valid wf_board_upd cell_upd)

lemma upd_overwrite:
  assumes "wf_board b" and "is_valid_position x y"
  shows "upd (upd b x y v) x y w = upd b x y w"
proof -
  from assms have y: "0 \<le> y" "y < 5"
    by (simp_all add: is_valid_position_def)
  from assms(1) have len: "length (cells b) = 5"
    by (simp add: wf_board_def)
  show ?thesis
    using y len by (simp add: upd_def)
qed

lemma upd_same:
  assumes "get b x y = Inr v" and "wf_board b" and "is_valid_position x y"
  shows "upd b x y v = b"
proof -
  from assms have "cells b ! nat y ! nat x = v"
    by (simp add: get_valid)
  then have "(cells b ! nat y)[nat x := v] = cells b ! nat y"
    by (metis list_update_id)
  then show ?thesis
    by (simp add: upd_def)
qed


lemma custody_pair:
  "custody state x y player (dx, dy) \<longleftrightarrow>
        is_valid_position (x + dx) (y + dy)
      \<and> is_valid_position (x + 2 * dx) (y + 2 * dy)
      \<and> get (board state) (x + dx) (y + dy) = Inr (get_opponent player)
      \<and> \<not> is_refuge (x + dx) (y + dy)
      \<and> get (board state) (x + 2 * dx) (y + 2 * dy) = Inr player"
  by (simp add: custody_def)

lemma capture_scan_filter:
  assumes "wf_board (board state)"
  shows "capture_scan state x y player ds captured =
           Inr (captured @ map (\<lambda>(dx, dy). (x + dx, y + dy))
                               (filter (custody state x y player) ds))"
proof (induction ds arbitrary: captured)
  case Nil
  show ?case by simp
next
  case (Cons d ds)
  obtain dx dy where d: "d = (dx, dy)" by (cases d)
  show ?case
    using assms Cons.IH
    by (auto simp: d custody_pair get_valid get_opponent_def)
qed

text \<open>
  C2. For a five-by-five board, \<open>check_captures\<close> returns exactly the cells
  \<open>(x, y) + d\<close>, over the directions \<open>d\<close> in the order \<open>+x, -x, +y, -y\<close>, for which
  \<open>(x, y) + d\<close> and \<open>(x, y) + 2d\<close> are in bounds, the first holds the opponent's piece
  and is not the refuge, and the second holds the player's piece; the list has at most
  four entries and never contains the refuge \<open>(2, 2)\<close>.
\<close>

theorem check_captures_custody:
  assumes "wf_board (board state)"
  shows "\<exists>cs. check_captures state x y player = Inr cs
           \<and> cs = map (\<lambda>(dx, dy). (x + dx, y + dy))
                    (filter (\<lambda>(dx, dy).
                        is_valid_position (x + dx) (y + dy)
                      \<and> is_valid_position (x + 2 * dx) (y + 2 * dy)
                      \<and> get (board state) (x + dx) (y + dy) = Inr (get_opponent player)
                      \<and> \<not> is_refuge (x + dx) (y + dy)
                      \<and> get (board state) (x + 2 * dx) (y + 2 * dy) = Inr player)
                      [(1, 0), (-1, 0), (0, 1), (0, -1)])
           \<and> length cs \<le> 4
           \<and> (REFUGE_X, REFUGE_Y) \<notin> set cs"
proof -
  let ?cs = "map (\<lambda>(dx, dy). (x + dx, y + dy))
               (filter (custody state x y player) capture_directions)"
  have run: "check_captures state x y player = Inr ?cs"
    using assms by (simp add: check_captures_def capture_scan_filter)
  have same: "custody state x y player =
      (\<lambda>(dx, dy).
          is_valid_position (x + dx) (y + dy)
        \<and> is_valid_position (x + 2 * dx) (y + 2 * dy)
        \<and> get (board state) (x + dx) (y + dy) = Inr (get_opponent player)
        \<and> \<not> is_refuge (x + dx) (y + dy)
        \<and> get (board state) (x + 2 * dx) (y + 2 * dy) = Inr player)"
    by (rule ext) (simp add: custody_def)
  have len: "length ?cs \<le> 4"
  proof -
    have "length ?cs \<le> length capture_directions"
      by simp
    then show ?thesis by (simp add: capture_directions_def)
  qed
  have ref: "(REFUGE_X, REFUGE_Y) \<notin> set ?cs"
    by (auto simp: custody_def is_refuge_def)
  show ?thesis
    using run len ref unfolding same capture_directions_def by blast
qed

theorem check_captures_custody_witness:
  "wf_board (board (movement_session custody_rows 3 2 1 None))
   \<and> check_captures (movement_session custody_rows 3 2 1 None) 0 0 1 = Inr [(1, 0), (0, 1)]"
proof -
  have h: "wf_board (board (movement_session custody_rows 3 2 1 None))"
    by (simp add: movement_session_def custody_rows_def wf_board_def)
  show ?thesis
    using h check_captures_custody [OF h, of 0 0 1]
    by (simp add: movement_session_def custody_rows_def board_eval get_opponent_def)
qed

section \<open>The chain look-ahead leaves the board as it was\<close>

lemma free_step_pair:
  "free_step state x y (dx, dy) \<longleftrightarrow>
     is_valid_position (x + dx) (y + dy) \<and> get (board state) (x + dx) (y + dy) = Inr EMPTY"
  by (simp add: free_step_def)

lemma empty_neighbours_filter:
  assumes "wf_board (board state)"
  shows "empty_neighbours state x y ds acc =
           Inr (acc @ map (\<lambda>(dx, dy). (x + dx, y + dy)) (filter (free_step state x y) ds))"
proof (induction ds arbitrary: acc)
  case Nil
  show ?case by simp
next
  case (Cons d ds)
  obtain dx dy where d: "d = (dx, dy)" by (cases d)
  show ?case
    using assms Cons.IH
    by (auto simp: d free_step_pair is_empty_def get_valid)
qed

lemma chain_scan_restores:
  assumes wf: "wf_board (board state)"
    and pos: "is_valid_position x y"
    and own: "get (board state) x y = Inr player"
    and free: "\<forall>m \<in> set moves. is_valid_position (fst m) (snd m)
                 \<and> get (board state) (fst m) (snd m) = Inr EMPTY \<and> m \<noteq> (x, y)"
  shows "\<exists>r. chain_scan state x y player moves = (state, Inr r)"
  using free
proof (induction moves)
  case Nil
  show ?case by auto
next
  case (Cons m moves)
  obtain mx my where m: "m = (mx, my)" by (cases m)
  let ?b = "board state"
  let ?b1 = "upd ?b x y EMPTY"
  let ?b2 = "upd ?b1 mx my player"
  from Cons.prems m have mpos: "is_valid_position mx my"
    and mfree: "get ?b mx my = Inr EMPTY" and mne: "(mx, my) \<noteq> (x, y)"
    by simp_all
  have wf1: "wf_board ?b1" and wf2: "wf_board ?b2"
    using wf by (simp_all add: wf_board_upd)
  have s1: "set_cell ?b x y EMPTY = Inr ?b1"
    using wf pos by (rule set_cell_valid)
  have s2: "set_cell ?b1 mx my player = Inr ?b2"
    using wf1 mpos by (rule set_cell_valid)
  obtain cs where cc: "check_captures (state\<lparr>board := ?b2\<rparr>) mx my player = Inr cs"
    using wf2 by (simp add: check_captures_def capture_scan_filter)
  have "get ?b1 mx my = Inr EMPTY"
    using wf pos mpos mfree mne by (auto simp: get_upd)
  then have b3: "upd ?b2 mx my EMPTY = ?b1"
    using wf1 mpos by (simp add: upd_overwrite upd_same)
  have s3: "set_cell ?b2 mx my EMPTY = Inr ?b1"
    using set_cell_valid [OF wf2 mpos, of EMPTY] b3 by simp
  have b4: "upd ?b1 x y player = ?b"
    using wf pos own by (simp add: upd_overwrite upd_same)
  have s4: "set_cell ?b1 x y player = Inr ?b"
    using set_cell_valid [OF wf1 pos, of player] b4 by simp
  have rest: "\<exists>r. chain_scan state x y player moves = (state, Inr r)"
    using Cons.IH Cons.prems by simp
  show ?case
    using rest by (auto simp: m s1 s2 cc s3 s4 simp del: EMPTY_def)
qed

lemma has_capture_chain_same:
  assumes "wf_board (board state)"
    and "is_valid_position x y"
    and "get (board state) x y = Inr player"
  shows "\<exists>r. has_capture_chain state x y player = (state, Inr r)"
proof -
  let ?ms = "map (\<lambda>(dx, dy). (x + dx, y + dy)) (filter (free_step state x y) move_directions)"
  have en: "empty_neighbours state x y move_directions [] = Inr ?ms"
    using assms(1) by (simp add: empty_neighbours_filter)
  have "\<forall>m \<in> set ?ms. is_valid_position (fst m) (snd m)
          \<and> get (board state) (fst m) (snd m) = Inr EMPTY \<and> m \<noteq> (x, y)"
    by (auto simp: free_step_def move_directions_def)
  then have "\<exists>r. chain_scan state x y player ?ms = (state, Inr r)"
    using assms by (intro chain_scan_restores)
  then show ?thesis
    by (simp add: has_capture_chain_def en)
qed

text \<open>
  What the look-ahead answers: the chain condition of the specification.
\<close>

lemma chain_scan_finds:
  assumes wf: "wf_board (board state)"
    and pos: "is_valid_position x y"
    and own: "get (board state) x y = Inr player"
    and free: "\<forall>m \<in> set moves. is_valid_position (fst m) (snd m)
                 \<and> get (board state) (fst m) (snd m) = Inr EMPTY \<and> m \<noteq> (x, y)"
  shows "chain_scan state x y player moves =
           (state,
            Inr (list_ex (\<lambda>(mx, my).
                   case check_captures
                          (state\<lparr>board := upd (upd (board state) x y EMPTY) mx my player\<rparr>)
                          mx my player of
                     Inr cs \<Rightarrow> cs \<noteq> []
                   | Inl e \<Rightarrow> False) moves))"
  using free
proof (induction moves)
  case Nil
  show ?case by simp
next
  case (Cons m moves)
  obtain mx my where m: "m = (mx, my)" by (cases m)
  let ?b = "board state"
  let ?b1 = "upd ?b x y EMPTY"
  let ?b2 = "upd ?b1 mx my player"
  from Cons.prems m have mpos: "is_valid_position mx my"
    and mfree: "get ?b mx my = Inr EMPTY" and mne: "(mx, my) \<noteq> (x, y)"
    by simp_all
  have wf1: "wf_board ?b1" and wf2: "wf_board ?b2"
    using wf by (simp_all add: wf_board_upd)
  have s1: "set_cell ?b x y EMPTY = Inr ?b1"
    using wf pos by (rule set_cell_valid)
  have s2: "set_cell ?b1 mx my player = Inr ?b2"
    using wf1 mpos by (rule set_cell_valid)
  obtain cs where cc: "check_captures (state\<lparr>board := ?b2\<rparr>) mx my player = Inr cs"
    using wf2 by (simp add: check_captures_def capture_scan_filter)
  have "get ?b1 mx my = Inr EMPTY"
    using wf pos mpos mfree mne by (auto simp: get_upd)
  then have b3: "upd ?b2 mx my EMPTY = ?b1"
    using wf1 mpos by (simp add: upd_overwrite upd_same)
  have s3: "set_cell ?b2 mx my EMPTY = Inr ?b1"
    using set_cell_valid [OF wf2 mpos, of EMPTY] b3 by simp
  have b4: "upd ?b1 x y player = ?b"
    using wf pos own by (simp add: upd_overwrite upd_same)
  have s4: "set_cell ?b1 x y player = Inr ?b"
    using set_cell_valid [OF wf1 pos, of player] b4 by simp
  have rest: "chain_scan state x y player moves =
           (state,
            Inr (list_ex (\<lambda>(mx, my).
                   case check_captures
                          (state\<lparr>board := upd (upd (board state) x y EMPTY) mx my player\<rparr>)
                          mx my player of
                     Inr cs \<Rightarrow> cs \<noteq> []
                   | Inl e \<Rightarrow> False) moves))"
    using Cons.IH Cons.prems by simp
  show ?case
    using rest by (auto simp: m s1 s2 cc s3 s4 simp del: EMPTY_def)
qed

lemma has_capture_chain_iff:
  assumes "wf_board (board state)"
    and "is_valid_position x y"
    and "get (board state) x y = Inr player"
  shows "has_capture_chain state x y player = (state, Inr (can_capture_again state x y player))"
proof -
  let ?ms = "map (\<lambda>(dx, dy). (x + dx, y + dy)) (filter (free_step state x y) move_directions)"
  let ?hit = "\<lambda>(mx, my).
                   case check_captures
                          (state\<lparr>board := upd (upd (board state) x y EMPTY) mx my player\<rparr>)
                          mx my player of
                     Inr cs \<Rightarrow> cs \<noteq> []
                   | Inl e \<Rightarrow> False"
  have en: "empty_neighbours state x y move_directions [] = Inr ?ms"
    using assms(1) by (simp add: empty_neighbours_filter)
  have "\<forall>m \<in> set ?ms. is_valid_position (fst m) (snd m)
          \<and> get (board state) (fst m) (snd m) = Inr EMPTY \<and> m \<noteq> (x, y)"
    by (auto simp: free_step_def move_directions_def)
  then have cs: "chain_scan state x y player ?ms = (state, Inr (list_ex ?hit ?ms))"
    using assms by (intro chain_scan_finds)
  have "list_ex ?hit ?ms = can_capture_again state x y player"
    by (auto simp: can_capture_again_def move_directions_def free_step_def simp del: EMPTY_def)
  then show ?thesis
    by (simp add: has_capture_chain_def en cs)
qed

text \<open>
  C9. On a five-by-five board, for a cell \<open>(x, y)\<close> in bounds that holds the piece of
  \<open>player\<close>, \<open>has_capture_chain\<close> raises nothing and returns the state it was given,
  board included, whether it returns at the first capturing neighbour or after the last
  one: its only effect is its boolean result.
\<close>

theorem has_capture_chain_restores_board:
  assumes "wf_board (board state)"
    and "is_valid_position x y"
    and "get (board state) x y = Inr player"
  shows "\<exists>r. has_capture_chain state x y player = (state, Inr r)"
  using assms by (rule has_capture_chain_same)

theorem has_capture_chain_restores_board_witness:
  "wf_board (board (movement_session chain_rows 2 2 1 None))
   \<and> is_valid_position 0 0
   \<and> get (board (movement_session chain_rows 2 2 1 None)) 0 0 = Inr 1
   \<and> has_capture_chain (movement_session chain_rows 2 2 1 None) 0 0 1
       = (movement_session chain_rows 2 2 1 None, Inr True)"
proof -
  let ?s = "movement_session chain_rows 2 2 1 None"
  have h1: "wf_board (board ?s)"
    by (simp add: movement_session_def chain_rows_def wf_board_def)
  have h2: "is_valid_position 0 0"
    by (simp add: is_valid_position_def)
  have h3: "get (board ?s) 0 0 = Inr 1"
    by (simp add: movement_session_def chain_rows_def board_eval)
  have r: "snd (has_capture_chain ?s 0 0 1) = Inr True"
    by (simp add: has_capture_chain_def move_directions_def check_captures_def
          capture_directions_def movement_session_def chain_rows_def board_eval)
  show ?thesis
    using h1 h2 h3 r has_capture_chain_restores_board [OF h1 h2 h3] by auto
qed

section \<open>Victory\<close>

lemma range_5: "[0..4] = [0, 1, 2, 3, 4 :: int]"
  by code_simp

lemma board_positions_eval:
  "board_positions =
     [(0, 0), (1, 0), (2, 0), (3, 0), (4, 0),
      (0, 1), (1, 1), (2, 1), (3, 1), (4, 1),
      (0, 2), (1, 2), (2, 2), (3, 2), (4, 2),
      (0, 3), (1, 3), (2, 3), (3, 3), (4, 3),
      (0, 4), (1, 4), (2, 4), (3, 4), (4, 4)]"
  by (simp add: board_positions_def range_5)

lemma blocked_moves:
  "get_all_valid_moves (movement_session blocked_rows n1 n2 1 None) 1 = Inr []"
  by (simp add: get_all_valid_moves_def get_valid_moves_for_piece_def board_positions_eval
        move_directions_def movement_session_def blocked_rows_def board_eval)

text \<open>
  Where the blocked player is not ahead, the stalemate branch of \<open>check_victory\<close> does
  what its comment says (the player to move cannot move and loses): with at least two
  pieces on each side, the player to move being 1 or 2 with no valid move and holding
  no more pieces than the opponent, the winner is the opponent.
\<close>

lemma check_victory_blocked_loses_when_not_ahead:
  assumes "phase state = MOVEMENT"
    and "pieces_count state 1 = Some p1"
    and "pieces_count state 2 = Some p2"
    and "2 \<le> p1" and "2 \<le> p2"
    and "get_all_valid_moves state (current_player state) = Inr []"
    and "current_player state = 1 \<and> p1 \<le> p2 \<or> current_player state = 2 \<and> p2 \<le> p1"
  shows "\<exists>reason. check_victory state
           = Inr (True, Some (get_opponent (current_player state)), reason)"
  using assms by (auto simp: check_victory_def get_opponent_def)

text \<open>
  C1. The blocked player is to lose. On the corner block player 1 is to move, has no
  valid move, and holds six pieces against five, both counts being at least 2:
  \<open>check_victory\<close> reports player 1, the blocked player itself, as the winner, and its
  reason names player 2 as the blocked one.
\<close>

theorem check_victory_blocked_leader_wins:
  "phase (movement_session blocked_rows 6 5 1 None) = MOVEMENT
   \<and> pieces_count (movement_session blocked_rows 6 5 1 None) 1 = Some 6
   \<and> pieces_count (movement_session blocked_rows 6 5 1 None) 2 = Some 5
   \<and> current_player (movement_session blocked_rows 6 5 1 None) = 1
   \<and> get_all_valid_moves (movement_session blocked_rows 6 5 1 None) 1 = Inr []
   \<and> check_victory (movement_session blocked_rows 6 5 1 None)
       = Inr (True, Some 1, ''Jugador 2 bloqueado, Jugador 1 tiene m'' @ a_acute @ ''s piezas'')"
proof -
  let ?s = "movement_session blocked_rows 6 5 1 None"
  have h: "phase ?s = MOVEMENT" "pieces_count ?s 1 = Some 6" "pieces_count ?s 2 = Some 5"
    "current_player ?s = 1"
    by (simp_all add: movement_session_def)
  have m: "get_all_valid_moves ?s 1 = Inr []"
    by (rule blocked_moves)
  have "check_victory ?s
       = Inr (True, Some 1, ''Jugador 2 bloqueado, Jugador 1 tiene m'' @ a_acute @ ''s piezas'')"
    using h m by (simp add: check_victory_def)
  with h m show ?thesis by blast
qed

text \<open>
  C4. In the movement phase, when a player's piece count is below 2, \<open>check_victory\<close>
  reports the game over with a winner whose opponent holds fewer than two pieces:
  player 2 when player 1 is below 2, and player 1 when only player 2 is. The service's
  step after the check then marks the session finished with that winner. So a count
  that has dropped to 1 ends the game for the other side at the next check.
\<close>

theorem check_victory_attrition:
  assumes "phase state = MOVEMENT"
    and "pieces_count state 1 = Some p1"
    and "pieces_count state 2 = Some p2"
    and "p1 < 2 \<or> p2 < 2"
  shows "\<exists>w reason. check_victory state = Inr (True, Some w, reason)
           \<and> (w = 1 \<or> w = 2)
           \<and> (\<exists>n. pieces_count state (get_opponent w) = Some n \<and> n < 2)
           \<and> (p1 < 2 \<longrightarrow> w = 2)
           \<and> (p2 < 2 \<and> 2 \<le> p1 \<longrightarrow> w = 1)
           \<and> victory_step state result =
                (state\<lparr>winner := Some w, game_over := True, status := FINISHED\<rparr>,
                 Inr (result\<lparr>r_game_over := True, r_winner := Some w, message := reason\<rparr>))"
  using assms by (auto simp: check_victory_def victory_step_def get_opponent_def)

theorem check_victory_attrition_witness:
  "phase (movement_session chain_rows 2 1 1 None) = MOVEMENT
   \<and> pieces_count (movement_session chain_rows 2 1 1 None) 2 = Some 1
   \<and> (\<exists>reason. check_victory (movement_session chain_rows 2 1 1 None)
          = Inr (True, Some 1, reason))
   \<and> winner (fst (victory_step (movement_session chain_rows 2 1 1 None)
                     \<lparr>success = True, captures = [(1, 1)], extra_turn = False,
                      phase_changed = False, r_game_over = False, r_winner = None,
                      message = []\<rparr>)) = Some 1
   \<and> status (fst (victory_step (movement_session chain_rows 2 1 1 None)
                     \<lparr>success = True, captures = [(1, 1)], extra_turn = False,
                      phase_changed = False, r_game_over = False, r_winner = None,
                      message = []\<rparr>)) = FINISHED"
proof -
  let ?s = "movement_session chain_rows 2 1 1 None"
  let ?r = "\<lparr>success = True, captures = [(1, 1)], extra_turn = False,
             phase_changed = False, r_game_over = False, r_winner = None,
             message = []\<rparr>"
  have h1: "phase ?s = MOVEMENT" and h2: "pieces_count ?s 1 = Some 2"
    and h3: "pieces_count ?s 2 = Some 1"
    by (simp_all add: movement_session_def)
  have h4: "(2::int) < 2 \<or> (1::int) < 2" by simp
  show ?thesis
    using check_victory_attrition [OF h1 h2 h3 h4, of ?r] h1 h3 by auto
qed

section \<open>The service: rejected actions and joining\<close>

lemma validate_token_of_number:
  "get_player_number state tok = Inr n \<Longrightarrow> validate_token state tok = Inr ()"
  by (auto simp: get_player_number_def validate_token_def split: if_splits)

lemma place_session_rejected:
  assumes "get_player_number state tok = Inr n"
    and "can_place_piece state x y n = Inr (False, msg)"
  shows "place_session state tok x y = (state, Inl (HTTPException 400 msg))"
  using assms by (simp add: place_session_def validate_token_of_number)

lemma move_session_rejected:
  assumes "get_player_number state tok = Inr n"
    and "can_move_piece state fx fy tx ty n = Inr (False, msg)"
  shows "move_session state tok fx fy tx ty = (state, Inl (HTTPException 400 msg))"
  using assms by (simp add: move_session_def validate_token_of_number)

text \<open>
  C6. When the token resolves to a player and the legality check of the rules answers
  "no" with a reason, \<open>GameService.place_piece\<close> and \<open>GameService.move_piece\<close> raise the
  HTTP error 400 carrying that very reason, and the repository, hence the session with
  its board, counts, phase, turn, budget and chain pointer, is what it was before.
\<close>

theorem illegal_action_leaves_session:
  "(games gid = Some state \<and> get_player_number state tok = Inr n
      \<and> can_place_piece state x y n = Inr (False, msg)
     \<longrightarrow> GameService_place_piece games gid tok x y = (games, Inl (HTTPException 400 msg)))
   \<and> (games gid = Some state \<and> get_player_number state tok = Inr n
      \<and> can_move_piece state fx fy tx ty n = Inr (False, msg)
     \<longrightarrow> GameService_move_piece games gid tok fx fy tx ty
           = (games, Inl (HTTPException 400 msg)))"
  by (auto simp: GameService_place_piece_def GameService_move_piece_def
        place_session_rejected move_session_rejected map_upd_triv)

theorem illegal_action_leaves_session_witness:
  "GameService_place_piece example_repo ''GAME0001'' ''token-one'' 3 3
     = (example_repo,
        Inl (HTTPException 400 (''No est'' @ a_acute @ ''s en la fase de posicionamiento'')))
   \<and> GameService_move_piece example_repo ''GAME0001'' ''token-one'' 4 4 4 3
     = (example_repo, Inl (HTTPException 400 ''No es tu pieza''))"
proof -
  let ?s = "movement_session chain_rows 2 2 1 None"
  have g: "example_repo ''GAME0001'' = Some ?s"
    by (simp add: example_repo_def)
  have n: "get_player_number ?s ''token-one'' = Inr 1"
    by (simp add: get_player_number_def has_token_def movement_session_def)
  have p: "can_place_piece ?s 3 3 1
             = Inr (False, ''No est'' @ a_acute @ ''s en la fase de posicionamiento'')"
    by (simp add: can_place_piece_def movement_session_def)
  have m: "can_move_piece ?s 4 4 4 3 1 = Inr (False, ''No es tu pieza'')"
    by (simp add: can_move_piece_def movement_session_def chain_rows_def board_eval)
  show ?thesis
    using illegal_action_leaves_session
      [of example_repo "''GAME0001''" ?s "''token-one''" 1 3 3
          "''No est'' @ a_acute @ ''s en la fase de posicionamiento''"]
      illegal_action_leaves_session
      [of example_repo "''GAME0001''" ?s "''token-one''" 1 _ _ "''No es tu pieza''" 4 4 4 3]
      g n p m
    by simp
qed

text \<open>
  C8. A token that is not empty (tokens are thirty-two hexadecimal digits) and is bound
  to slot 1 or slot 2 of the session: \<open>join_game\<close> answers with the game, that token and
  its slot, and the repository is unchanged; so a second call, whatever fresh token and
  starting player it would draw, gives the same answer, and no slot gets a new occupant.
\<close>

theorem join_game_idempotent:
  assumes "games gid = Some state"
    and "tok \<noteq> []"
    and "has_token (player1 state) tok \<or> has_token (player2 state) tok"
  shows "join_game games gid (Some tok) new_token first
           = (games, Inr \<lparr>gameId = gid, playerToken = tok,
                           playerNumber = (if has_token (player1 state) tok then 1 else 2),
                           statusValue = status state\<rparr>)
         \<and> join_game (fst (join_game games gid (Some tok) new_token first)) gid (Some tok)
              new_token' first'
           = join_game games gid (Some tok) new_token first"
proof -
  have one: "\<And>nt f. join_game games gid (Some tok) nt f
           = (games, Inr \<lparr>gameId = gid, playerToken = tok,
                           playerNumber = (if has_token (player1 state) tok then 1 else 2),
                           statusValue = status state\<rparr>)"
    using assms by (auto simp: join_game_def join_session_def map_upd_triv)
  show ?thesis
    by (simp add: one)
qed

theorem join_game_idempotent_witness:
  "join_game example_repo ''GAME0001'' (Some ''token-two'') ''fresh'' 1
     = (example_repo, Inr \<lparr>gameId = ''GAME0001'', playerToken = ''token-two'',
                            playerNumber = 2, statusValue = PLAYING\<rparr>)
   \<and> join_game (fst (join_game example_repo ''GAME0001'' (Some ''token-two'') ''fresh'' 1))
        ''GAME0001'' (Some ''token-two'') ''other'' 2
     = join_game example_repo ''GAME0001'' (Some ''token-two'') ''fresh'' 1"
proof -
  let ?s = "movement_session chain_rows 2 2 1 None"
  have g: "example_repo ''GAME0001'' = Some ?s"
    by (simp add: example_repo_def)
  have t: "''token-two'' \<noteq> []" by simp
  have b: "has_token (player1 ?s) ''token-two'' \<or> has_token (player2 ?s) ''token-two''"
    by (simp add: has_token_def movement_session_def)
  have n: "\<not> has_token (player1 ?s) ''token-two''" and st: "status ?s = PLAYING"
    by (simp_all add: has_token_def movement_session_def)
  show ?thesis
    using join_game_idempotent
      [where games = example_repo and gid = "''GAME0001''" and state = ?s
         and tok = "''token-two''" and new_token = "''fresh''" and first = 1
         and new_token' = "''other''" and first' = 2, OF g t b] n st
    by auto
qed

text \<open>
  C10. A waiting session and a supplied token that matches neither slot: \<open>join_game\<close>
  raises nothing; it seats the caller in slot 2 under the fresh token, sets the status
  to playing and the starting player as drawn, and answers with slot 2.
\<close>

theorem join_game_waiting_ignores_token:
  assumes "games gid = Some state"
    and "status state = WAITING"
    and "\<not> has_token (player1 state) tok"
    and "\<not> has_token (player2 state) tok"
  shows "join_game games gid (Some tok) new_token first
           = (games(gid \<mapsto> state\<lparr>player2 := Some \<lparr>player_number = 2, token = new_token,
                                                   connected = True\<rparr>,
                                   status := PLAYING,
                                   current_player := first\<rparr>),
              Inr \<lparr>gameId = gid, playerToken = new_token, playerNumber = 2,
                   statusValue = PLAYING\<rparr>)"
  using assms by (simp add: join_game_def join_session_def join_new_def)


theorem join_game_waiting_ignores_token_witness:
  "status (waiting_session ''GAME0001'' ''token-one'') = WAITING
   \<and> \<not> has_token (player1 (waiting_session ''GAME0001'' ''token-one'')) ''stranger''
   \<and> \<not> has_token (player2 (waiting_session ''GAME0001'' ''token-one'')) ''stranger''
   \<and> snd (join_game [''GAME0001'' \<mapsto> waiting_session ''GAME0001'' ''token-one'']
             ''GAME0001'' (Some ''stranger'') ''token-two'' 2)
       = Inr \<lparr>gameId = ''GAME0001'', playerToken = ''token-two'', playerNumber = 2,
              statusValue = PLAYING\<rparr>
   \<and> map_option status
         (fst (join_game [''GAME0001'' \<mapsto> waiting_session ''GAME0001'' ''token-one'']
                 ''GAME0001'' (Some ''stranger'') ''token-two'' 2) ''GAME0001'')
       = Some PLAYING"
proof -
  let ?s = "waiting_session ''GAME0001'' ''token-one''"
  have g: "[''GAME0001'' \<mapsto> ?s] ''GAME0001'' = Some ?s"
    by simp
  have w: "status ?s = WAITING"
    and n1: "\<not> has_token (player1 ?s) ''stranger''"
    and n2: "\<not> has_token (player2 ?s) ''stranger''"
    by (simp_all add: waiting_session_def has_token_def)
  show ?thesis
    using join_game_waiting_ignores_token
      [where games = "[''GAME0001'' \<mapsto> ?s]" and gid = "''GAME0001''" and state = ?s
         and tok = "''stranger''" and new_token = "''token-two''" and first = 2,
       OF g w n1 n2] w n1 n2
    by simp
qed


section \<open>A legal move, step by step\<close>

lemma can_move_piece_accepts:
  assumes "can_move_piece s fx fy tx ty p = Inr (True, m)"
  shows "phase s = MOVEMENT" and "current_player s = p"
    and "is_valid_position fx fy" and "is_valid_position tx ty"
    and "get (board s) fx fy = Inr p" and "get (board s) tx ty = Inr EMPTY"
    and "(fx, fy) \<noteq> (tx, ty)"
    and "chain_capture_piece s = None \<or> chain_capture_piece s = Some (fx, fy)"
  using assms
  by (auto simp: can_move_piece_def is_empty_def Let_def
           split: if_splits sum.splits option.splits)

lemma move_piece_result:
  assumes "wf_board (board s)" and "is_valid_position fx fy" and "is_valid_position tx ty"
    and "get (board s) fx fy = Inr p"
  shows "move_piece s fx fy tx ty
           = (s\<lparr>board := upd (upd (board s) fx fy EMPTY) tx ty p\<rparr>, Inr ())"
  using assms
  by (simp add: move_piece_def set_cell_valid wf_board_upd del: EMPTY_def)

lemma custody_cells:
  assumes "c \<in> set (map (\<lambda>(dx, dy). (x + dx, y + dy)) (filter (custody s x y p) ds))"
    and "(0, 0) \<notin> set ds"
  shows "is_valid_position (fst c) (snd c)"
    and "get (board s) (fst c) (snd c) = Inr (get_opponent p)"
    and "c \<noteq> (x, y)"
  using assms by (auto simp: custody_def)

lemma check_captures_cells:
  assumes "wf_board (board s)" and "check_captures s x y p = Inr caps"
  shows "distinct caps"
    and "\<forall>c \<in> set caps. is_valid_position (fst c) (snd c)
           \<and> get (board s) (fst c) (snd c) = Inr (get_opponent p) \<and> c \<noteq> (x, y)"
proof -
  let ?f = "\<lambda>(dx, dy). (x + dx, y + dy)"
  have caps: "caps = map ?f (filter (custody s x y p) capture_directions)"
    using assms by (simp add: check_captures_def capture_scan_filter)
  have "inj ?f"
    by (auto simp: inj_on_def)
  moreover have "distinct (filter (custody s x y p) capture_directions)"
    by (simp add: capture_directions_def)
  ultimately show "distinct caps"
    unfolding caps by (simp add: distinct_map inj_on_def)
  have z: "(0, 0) \<notin> set capture_directions"
    by (simp add: capture_directions_def)
  show "\<forall>c \<in> set caps. is_valid_position (fst c) (snd c)
           \<and> get (board s) (fst c) (snd c) = Inr (get_opponent p) \<and> c \<noteq> (x, y)"
    unfolding caps using custody_cells [OF _ z] by blast
qed

lemma apply_captures_result:
  assumes "wf_board (board s)" and "distinct caps"
    and "\<forall>c \<in> set caps. is_valid_position (fst c) (snd c)
           \<and> (\<exists>v. get (board s) (fst c) (snd c) = Inr v \<and> pieces_count s v \<noteq> None)"
  shows "\<exists>b cnt. apply_captures s caps = (s\<lparr>board := b, pieces_count := cnt\<rparr>, Inr ())
           \<and> wf_board b
           \<and> (\<forall>k. cnt k \<noteq> None \<longleftrightarrow> pieces_count s k \<noteq> None)
           \<and> (\<forall>x y. is_valid_position x y \<and> (x, y) \<notin> set caps
                 \<longrightarrow> get b x y = get (board s) x y)"
  using assms
proof (induction caps arbitrary: s)
  case Nil
  have "s\<lparr>board := board s, pieces_count := pieces_count s\<rparr> = s" by simp
  with Nil show ?case
    by (metis apply_captures.simps(1) empty_iff list.set(1))
next
  case (Cons c caps)
  obtain x y where c: "c = (x, y)" by (cases c)
  from Cons.prems c obtain v n where pos: "is_valid_position x y"
    and v: "get (board s) x y = Inr v" and n: "pieces_count s v = Some n"
    by auto
  let ?s1 = "s\<lparr>board := upd (board s) x y EMPTY, pieces_count := (pieces_count s)(v \<mapsto> n - 1)\<rparr>"
  have wf1: "wf_board (board ?s1)"
    using Cons.prems(1) by (simp add: wf_board_upd)
  have d1: "distinct caps" and notin: "(x, y) \<notin> set caps"
    using Cons.prems(2) c by simp_all
  have keep: "get (board ?s1) x' y' = get (board s) x' y'"
    if "is_valid_position x' y'" and "x' \<noteq> x \<or> y' \<noteq> y" for x' y'
    using that Cons.prems(1) pos by (auto simp: get_upd)
  have pre1: "\<forall>c \<in> set caps. is_valid_position (fst c) (snd c)
           \<and> (\<exists>v. get (board ?s1) (fst c) (snd c) = Inr v \<and> pieces_count ?s1 v \<noteq> None)"
  proof
    fix c' assume c': "c' \<in> set caps"
    with Cons.prems(3) obtain v' where p': "is_valid_position (fst c') (snd c')"
      and g': "get (board s) (fst c') (snd c') = Inr v'" and k': "pieces_count s v' \<noteq> None"
      by auto
    from c' notin have "fst c' \<noteq> x \<or> snd c' \<noteq> y" by (cases c') auto
    from keep [OF p' this] g' have "get (board ?s1) (fst c') (snd c') = Inr v'" by simp
    moreover from k' have "pieces_count ?s1 v' \<noteq> None" by simp
    ultimately show "is_valid_position (fst c') (snd c')
           \<and> (\<exists>v. get (board ?s1) (fst c') (snd c') = Inr v \<and> pieces_count ?s1 v \<noteq> None)"
      using p' by blast
  qed
  from Cons.IH [OF wf1 d1 pre1] obtain b cnt where
    run: "apply_captures ?s1 caps = (?s1\<lparr>board := b, pieces_count := cnt\<rparr>, Inr ())"
    and wfb: "wf_board b"
    and dom: "\<forall>k. cnt k \<noteq> None \<longleftrightarrow> pieces_count ?s1 k \<noteq> None"
    and same: "\<forall>x' y'. is_valid_position x' y' \<and> (x', y') \<notin> set caps
                 \<longrightarrow> get b x' y' = get (board ?s1) x' y'"
    by blast
  have step: "apply_captures s (c # caps) = apply_captures ?s1 caps"
    using Cons.prems(1) pos v n by (simp add: c set_cell_valid del: EMPTY_def)
  have "apply_captures s (c # caps) = (s\<lparr>board := b, pieces_count := cnt\<rparr>, Inr ())"
    using step run by simp
  moreover have "\<forall>k. cnt k \<noteq> None \<longleftrightarrow> pieces_count s k \<noteq> None"
    using dom n by auto
  moreover have "\<forall>x' y'. is_valid_position x' y' \<and> (x', y') \<notin> set (c # caps)
                 \<longrightarrow> get b x' y' = get (board s) x' y'"
    using same keep c by auto
  ultimately show ?case
    using wfb by blast
qed

lemma get_opponent_key:
  "pieces_count s 1 \<noteq> None \<Longrightarrow> pieces_count s 2 \<noteq> None
     \<Longrightarrow> pieces_count s (get_opponent p) \<noteq> None"
  by (simp add: get_opponent_def)

lemma resolve_turn_result:
  assumes wf: "wf_board (board s)"
    and k1: "pieces_count s 1 \<noteq> None" and k2: "pieces_count s 2 \<noteq> None"
    and pos: "is_valid_position tx ty"
    and own: "get (board s) tx ty = Inr p"
    and cc: "check_captures s tx ty p = Inr caps"
  shows "\<exists>b cnt extra.
           resolve_turn s tx ty p caps =
             (if extra then s\<lparr>board := b, pieces_count := cnt,
                                chain_capture_piece := Some (tx, ty)\<rparr>
              else switch_turn (s\<lparr>board := b, pieces_count := cnt,
                                   chain_capture_piece := None\<rparr>),
              Inr extra)
         \<and> wf_board b \<and> cnt 1 \<noteq> None \<and> cnt 2 \<noteq> None \<and> get b tx ty = Inr p
         \<and> (extra \<longleftrightarrow> caps \<noteq> []
               \<and> snd (has_capture_chain (fst (apply_captures s caps)) tx ty p) = Inr True)
         \<and> (extra \<longleftrightarrow> caps \<noteq> []
               \<and> can_capture_again (fst (apply_captures s caps)) tx ty p)"
proof (cases "caps = []")
  case True
  have "resolve_turn s tx ty p caps =
          (switch_turn (s\<lparr>board := board s, pieces_count := pieces_count s,
                           chain_capture_piece := None\<rparr>), Inr False)"
    using True by (simp add: resolve_turn_def)
  then show ?thesis
    using wf k1 k2 own True by (intro exI [of _ "board s"] exI [of _ "pieces_count s"]
      exI [of _ False]) simp
next
  case False
  from check_captures_cells [OF wf cc]
  have d: "distinct caps"
    and cells: "\<forall>c \<in> set caps. is_valid_position (fst c) (snd c)
           \<and> get (board s) (fst c) (snd c) = Inr (get_opponent p) \<and> c \<noteq> (tx, ty)"
    by simp_all
  have pre: "\<forall>c \<in> set caps. is_valid_position (fst c) (snd c)
           \<and> (\<exists>v. get (board s) (fst c) (snd c) = Inr v \<and> pieces_count s v \<noteq> None)"
    using cells get_opponent_key [OF k1 k2] by blast
  from apply_captures_result [OF wf d pre] obtain b cnt where
    ac: "apply_captures s caps = (s\<lparr>board := b, pieces_count := cnt\<rparr>, Inr ())"
    and wfb: "wf_board b"
    and dom: "\<forall>k. cnt k \<noteq> None \<longleftrightarrow> pieces_count s k \<noteq> None"
    and same: "\<forall>x y. is_valid_position x y \<and> (x, y) \<notin> set caps
                 \<longrightarrow> get b x y = get (board s) x y"
    by blast
  let ?s1 = "s\<lparr>board := b, pieces_count := cnt\<rparr>"
  have "(tx, ty) \<notin> set caps"
    using cells by blast
  with same pos own have ownb: "get b tx ty = Inr p"
    by simp
  have "wf_board (board ?s1)" and "get (board ?s1) tx ty = Inr p"
    using wfb ownb by simp_all
  from has_capture_chain_iff [OF this(1) pos this(2)] obtain r where
    hc: "has_capture_chain ?s1 tx ty p = (?s1, Inr r)"
    and rc: "r \<longleftrightarrow> can_capture_again ?s1 tx ty p"
    by blast
  have "resolve_turn s tx ty p caps =
          (if r then s\<lparr>board := b, pieces_count := cnt, chain_capture_piece := Some (tx, ty)\<rparr>
           else switch_turn (s\<lparr>board := b, pieces_count := cnt,
                                chain_capture_piece := None\<rparr>), Inr r)"
    using False by (simp add: resolve_turn_def ac hc)
  moreover have "r \<longleftrightarrow> caps \<noteq> []
               \<and> snd (has_capture_chain (fst (apply_captures s caps)) tx ty p) = Inr True"
    using False by (simp add: ac hc)
  moreover have "r \<longleftrightarrow> caps \<noteq> []
               \<and> can_capture_again (fst (apply_captures s caps)) tx ty p"
    using False rc by (simp add: ac)
  moreover have "cnt 1 \<noteq> None" and "cnt 2 \<noteq> None"
    using dom k1 k2 by simp_all
  ultimately show ?thesis
    using wfb ownb by blast
qed

lemma victory_step_frame:
  assumes "victory_step s r = (s', out)"
  shows "\<exists>w g st. s' = s\<lparr>winner := w, game_over := g, status := st\<rparr>
           \<and> (st = status s \<or> st = FINISHED)"
proof -
  have keep: "s = s\<lparr>winner := winner s, game_over := game_over s, status := status s\<rparr>"
    by simp
  from assms have "s' = s \<or> (\<exists>w. s' = s\<lparr>winner := w, game_over := True, status := FINISHED\<rparr>)"
    by (auto simp: victory_step_def split: sum.splits if_splits prod.splits)
  then show ?thesis
    using keep by metis
qed

lemma conclude_move_frame:
  assumes "conclude_move s r = (s', out)"
  shows "\<exists>w g st. s' = s\<lparr>winner := w, game_over := g, status := st\<rparr>
           \<and> (st = status s \<or> st = FINISHED)"
proof -
  obtain s1 o1 where v1: "victory_step s r = (s1, o1)"
    by (cases "victory_step s r")
  from victory_step_frame [OF v1] obtain w g st where
    s1: "s1 = s\<lparr>winner := w, game_over := g, status := st\<rparr>"
    and st: "st = status s \<or> st = FINISHED"
    by blast
  show ?thesis
  proof (cases "s' = s1")
    case True
    with s1 st show ?thesis by blast
  next
    case False
    with assms v1 obtain r1 where v2: "victory_step s1 r1 = (s', out)"
      by (auto simp: conclude_move_def split: sum.splits if_splits)
    from victory_step_frame [OF v2] obtain w' g' st' where
      s': "s' = s1\<lparr>winner := w', game_over := g', status := st'\<rparr>"
      and st': "st' = status s1 \<or> st' = FINISHED"
      by blast
    have "s' = s\<lparr>winner := w', game_over := g', status := st'\<rparr>"
      using s' s1 by simp
    moreover have "st' = status s \<or> st' = FINISHED"
      using st' st s1 by auto
    ultimately show ?thesis by blast
  qed
qed

lemma session_inv_finished:
  assumes "session_inv s" and "st = status s \<or> st = FINISHED"
  shows "session_inv (s\<lparr>winner := w, game_over := g, status := st\<rparr>)"
  using assms by (auto simp: session_inv_def split: option.splits)

section \<open>Every request preserves the invariant\<close>

lemma get_player_number_range:
  "get_player_number s tok = Inr p \<Longrightarrow> p = 1 \<or> p = 2"
  by (auto simp: get_player_number_def split: if_splits)

lemma get_player_number_waiting:
  "get_player_number s tok = Inr p \<Longrightarrow> player2 s = None \<Longrightarrow> p = 1"
  by (auto simp: get_player_number_def has_token_def split: if_splits)

lemma check_captures_total:
  "wf_board (board s) \<Longrightarrow> \<exists>caps. check_captures s x y p = Inr caps"
  by (simp add: check_captures_def capture_scan_filter)

lemma switch_turn_movement:
  "phase s = MOVEMENT \<Longrightarrow> switch_turn s = s\<lparr>current_player := get_opponent (current_player s)\<rparr>"
  by (simp add: switch_turn_def)

lemma move_session_inv:
  assumes inv: "session_inv s"
  shows "session_inv (fst (move_session s tok fx fy tx ty))"
proof (cases "\<exists>p m. get_player_number s tok = Inr p
                \<and> can_move_piece s fx fy tx ty p = Inr (True, m)")
  case False
  then have "fst (move_session s tok fx fy tx ty) = s"
    by (auto simp: move_session_def split: sum.splits prod.splits)
  with inv show ?thesis by simp
next
  case True
  then obtain p m where num: "get_player_number s tok = Inr p"
    and can: "can_move_piece s fx fy tx ty p = Inr (True, m)"
    by blast
  from inv have wf: "wf_board (board s)"
    and k1: "pieces_count s 1 \<noteq> None" and k2: "pieces_count s 2 \<noteq> None"
    and cur: "current_player s = 1 \<or> current_player s = 2"
    by (simp_all add: session_inv_def)
  note acc = can_move_piece_accepts [OF can]
  let ?b1 = "upd (upd (board s) fx fy EMPTY) tx ty p"
  let ?s1 = "s\<lparr>board := ?b1\<rparr>"
  have mv: "move_piece s fx fy tx ty = (?s1, Inr ())"
    using wf acc(3) acc(4) acc(5) by (rule move_piece_result)
  have wf1: "wf_board (board ?s1)"
    using wf by (simp add: wf_board_upd)
  have own1: "get (board ?s1) tx ty = Inr p"
    using wf acc(3) acc(4) by (simp add: get_upd wf_board_upd)
  obtain caps where cc: "check_captures ?s1 tx ty p = Inr caps"
    using check_captures_total [OF wf1] by blast
  have k1': "pieces_count ?s1 1 \<noteq> None" and k2': "pieces_count ?s1 2 \<noteq> None"
    using k1 k2 by simp_all
  from resolve_turn_result [OF wf1 k1' k2' acc(4) own1 cc]
  obtain b cnt extra where
    rt: "resolve_turn ?s1 tx ty p caps =
             (if extra then ?s1\<lparr>board := b, pieces_count := cnt,
                                chain_capture_piece := Some (tx, ty)\<rparr>
              else switch_turn (?s1\<lparr>board := b, pieces_count := cnt,
                                   chain_capture_piece := None\<rparr>),
              Inr extra)"
    and wfb: "wf_board b" and c1: "cnt 1 \<noteq> None" and c2: "cnt 2 \<noteq> None"
    and ownb: "get b tx ty = Inr p"
    by blast
  let ?s2 = "fst (resolve_turn ?s1 tx ty p caps)"
  let ?pinned = "?s1\<lparr>board := b, pieces_count := cnt, chain_capture_piece := Some (tx, ty)\<rparr>"
  let ?passed = "switch_turn (?s1\<lparr>board := b, pieces_count := cnt,
                                   chain_capture_piece := None\<rparr>)"
  have "session_inv ?pinned"
    using wfb c1 c2 ownb acc(1) acc(2) acc(4) cur inv
    by (auto simp: session_inv_def)
  moreover have "session_inv ?passed"
    using wfb c1 c2 acc(1) cur inv
    by (auto simp: session_inv_def switch_turn_movement get_opponent_def)
  moreover have "?s2 = (if extra then ?pinned else ?passed)"
    by (simp only: rt fst_conv)
  ultimately have inv2: "session_inv ?s2"
    by (cases extra) (simp_all only: if_True if_False)
  obtain s3 out where cm:
    "conclude_move ?s2 \<lparr>success = True, captures = caps, extra_turn = extra,
                     phase_changed = False, r_game_over = False, r_winner = None,
                     message = []\<rparr> = (s3, out)"
    by (cases "conclude_move ?s2 \<lparr>success = True, captures = caps, extra_turn = extra,
                     phase_changed = False, r_game_over = False, r_winner = None,
                     message = []\<rparr>")
  from conclude_move_frame [OF cm] inv2 have inv3: "session_inv s3"
    using session_inv_finished by blast
  have "fst (move_session s tok fx fy tx ty) = s3"
    using num can mv cc rt cm
    by (simp add: move_session_def validate_token_of_number split: sum.splits)
  with inv3 show ?thesis by simp
qed


lemma can_place_piece_accepts:
  assumes "can_place_piece s x y p = Inr (True, m)"
  shows "phase s = PLACEMENT" and "current_player s = p"
    and "0 < placement_remaining s"
    and "is_valid_position x y" and "get (board s) x y = Inr EMPTY"
    and "\<not> is_refuge x y"
  using assms
  by (auto simp: can_place_piece_def is_empty_def split: if_splits sum.splits)

lemma place_piece_result:
  assumes "wf_board (board s)" and "is_valid_position x y" and "pieces_count s p = Some c"
  shows "place_piece s x y p =
     (let s1 = s\<lparr>board := upd (board s) x y p,
                   pieces_count := (pieces_count s)(p \<mapsto> c + 1),
                   total_pieces_placed := total_pieces_placed s + 1,
                   placement_remaining := placement_remaining s - 1\<rparr>;
          s2 = (if placement_remaining s1 = 0 then switch_turn s1 else s1)
      in if total_pieces_placed s2 \<ge> 24
         then (s2\<lparr>phase := MOVEMENT, chain_capture_piece := None\<rparr>, Inr True)
         else (s2, Inr False))"
  using assms by (simp add: place_piece_def set_cell_valid)

lemma place_piece_inv:
  assumes inv: "session_inv s"
    and num: "get_player_number s tok = Inr p"
    and can: "can_place_piece s x y p = Inr (True, m)"
  shows "session_inv (fst (place_piece s x y p))"
    and "\<exists>changed. snd (place_piece s x y p) = Inr changed"
proof -
  from inv have wf: "wf_board (board s)"
    and k1: "pieces_count s 1 \<noteq> None" and k2: "pieces_count s 2 \<noteq> None"
    by (simp_all add: session_inv_def)
  note acc = can_place_piece_accepts [OF can]
  from get_player_number_range [OF num] k1 k2 obtain c where c: "pieces_count s p = Some c"
    by auto
  have wait: "status s = WAITING \<Longrightarrow> p = 1"
    using inv get_player_number_waiting [OF num] by (simp add: session_inv_def)
  note res = place_piece_result [OF wf acc(4) c]
  show "session_inv (fst (place_piece s x y p))"
    using inv acc(1) acc(2) acc(3) wait get_player_number_range [OF num]
    by (auto simp: res Let_def session_inv_def switch_turn_def get_opponent_def wf_board_upd)
  show "\<exists>changed. snd (place_piece s x y p) = Inr changed"
    by (auto simp: res Let_def)
qed

lemma place_session_inv:
  assumes inv: "session_inv s"
  shows "session_inv (fst (place_session s tok x y))"
proof (cases "\<exists>p m. get_player_number s tok = Inr p
                \<and> can_place_piece s x y p = Inr (True, m)")
  case False
  then have "fst (place_session s tok x y) = s"
    by (auto simp: place_session_def split: sum.splits prod.splits)
  with inv show ?thesis by simp
next
  case True
  then obtain p m where num: "get_player_number s tok = Inr p"
    and can: "can_place_piece s x y p = Inr (True, m)"
    by blast
  obtain s1 o1 where pp: "place_piece s x y p = (s1, o1)"
    by (cases "place_piece s x y p")
  from place_piece_inv [OF inv num can] pp obtain changed where
    inv1: "session_inv s1" and o1: "o1 = Inr changed"
    by auto
  let ?r = "\<lparr>success = True, captures = [], extra_turn = False,
             phase_changed = changed, r_game_over = False, r_winner = None,
             message = ''Pieza colocada exitosamente''\<rparr>"
  obtain s2 o2 where vs: "victory_step s1 ?r = (s2, o2)"
    by (cases "victory_step s1 ?r")
  from victory_step_frame [OF vs] inv1 have inv2: "session_inv s2"
    using session_inv_finished by blast
  have "fst (place_session s tok x y) = s1 \<or> fst (place_session s tok x y) = s2"
    using num can pp o1 vs
    by (auto simp: place_session_def validate_token_of_number Let_def split: sum.splits)
  with inv1 inv2 show ?thesis by auto
qed

lemma join_session_inv:
  assumes "session_inv s" and "first = 1 \<or> first = 2"
  shows "session_inv (fst (join_session s gid t new_token first))"
  using assms
  by (auto simp: join_session_def join_new_def session_inv_def
           split: option.splits if_splits)

lemma leave_session_inv:
  assumes "session_inv s" and "fst (leave_session s tok) = Some s'"
  shows "session_inv s'"
  using assms
  by (auto simp: leave_session_def leave_rest_def Let_def session_inv_def
           split: option.splits if_splits)

lemma wf_new_board: "wf_board new_board"
  by (simp add: new_board_def wf_board_def list_all_iff)

lemma rematch_session_inv:
  assumes "session_inv s" and "first = 1 \<or> first = 2"
  shows "session_inv (fst (rematch_session s tok first))"
  using assms
  by (auto simp: rematch_session_def Let_def session_inv_def wf_new_board
           split: option.splits if_splits sum.splits)

lemma step_inv:
  assumes "session_inv s" and "drawn a" and "step s a = Some s'"
  shows "session_inv s'"
proof (cases a)
  case (Join t new_token first)
  with assms show ?thesis using join_session_inv by auto
next
  case (Place tok x y)
  with assms show ?thesis using place_session_inv by auto
next
  case (Move tok fx fy tx ty)
  with assms show ?thesis using move_session_inv by auto
next
  case (Leave tok)
  with assms show ?thesis using leave_session_inv by auto
next
  case (Rematch tok first)
  with assms show ?thesis using rematch_session_inv by auto
qed

lemma run_inv:
  assumes "session_inv s" and "list_all drawn acts" and "run s acts = Some s'"
  shows "session_inv s'"
  using assms
proof (induction acts arbitrary: s)
  case Nil
  then show ?case by simp
next
  case (Cons a acts)
  from Cons.prems(3) obtain s1 where s1: "step s a = Some s1" and r: "run s1 acts = Some s'"
    by (auto split: option.splits)
  from Cons.prems have "session_inv s1"
    using step_inv s1 by auto
  with Cons.IH Cons.prems(2) r show ?case by simp
qed

lemma waiting_session_inv: "session_inv (waiting_session gid tok)"
  by (simp add: session_inv_def waiting_session_def wf_new_board)

text \<open>
  C7. In every session reached from \<open>create_game\<close> by join, place, move (with its
  captures), leave and rematch requests, the starting players being drawn from 1 and 2,
  a chain pointer that is set names a cell holding a piece of the player to move. Each
  request preserves \<open>session_inv\<close>, of which this is the last clause.
\<close>

theorem chain_pointer_on_own_piece:
  assumes "list_all drawn acts"
    and "run (waiting_session gid tok) acts = Some s"
    and "chain_capture_piece s = Some (x, y)"
  shows "get (board s) x y = Inr (current_player s)
         \<and> (current_player s = PLAYER1 \<or> current_player s = PLAYER2)"
proof -
  have "session_inv s"
    using waiting_session_inv assms(1) assms(2) by (rule run_inv)
  with assms(3) show ?thesis
    by (simp add: session_inv_def)
qed

theorem chain_pointer_on_own_piece_witness:
  "list_all drawn chain_game
   \<and> (\<exists>s. run (waiting_session ''GAME0001'' ''token-one'') chain_game = Some s
         \<and> chain_capture_piece s = Some (2, 2)
         \<and> get (board s) 2 2 = Inr (current_player s)
         \<and> current_player s = 1)"
proof -
  have d: "list_all drawn chain_game" by code_simp
  have "map_option (\<lambda>s. (chain_capture_piece s, current_player s))
          (run (waiting_session ''GAME0001'' ''token-one'') chain_game) = Some (Some (2, 2), 1)"
    by code_simp
  then obtain s where r: "run (waiting_session ''GAME0001'' ''token-one'') chain_game = Some s"
    and pin: "chain_capture_piece s = Some (2, 2)" and cur: "current_player s = 1"
    by auto
  from chain_pointer_on_own_piece [OF d r pin] r pin cur d show ?thesis
    by simp
qed



section \<open>A chain capture pins the piece\<close>







section \<open>The phase after the twenty-fourth placement\<close>

lemma move_piece_phase: "phase (fst (move_piece s fx fy tx ty)) = phase s"
  by (simp add: move_piece_def split: sum.splits)

lemma apply_captures_phase: "phase (fst (apply_captures s caps)) = phase s"
  by (induction s caps rule: apply_captures.induct) (auto split: sum.splits option.splits)

lemma chain_scan_phase: "phase (fst (chain_scan s x y p moves)) = phase s"
  by (induction s x y p moves rule: chain_scan.induct) (auto split: sum.splits)

lemma has_capture_chain_phase: "phase (fst (has_capture_chain s x y p)) = phase s"
  by (simp add: has_capture_chain_def chain_scan_phase split: sum.splits)

lemma switch_turn_phase: "phase (switch_turn s) = phase s"
  by (simp add: switch_turn_def Let_def)

lemma resolve_turn_phase: "phase (fst (resolve_turn s tx ty p caps)) = phase s"
proof -
  obtain s1 o1 where a: "apply_captures s caps = (s1, o1)"
    by (cases "apply_captures s caps")
  obtain s2 o2 where h: "has_capture_chain s1 tx ty p = (s2, o2)"
    by (cases "has_capture_chain s1 tx ty p")
  have p1: "phase s1 = phase s"
    using apply_captures_phase [of s caps] a by simp
  have p2: "phase s2 = phase s1"
    using has_capture_chain_phase [of s1 tx ty p] h by simp
  show ?thesis
    using p1 p2
    by (auto simp: resolve_turn_def a h switch_turn_phase split: sum.splits)
qed

lemma conclude_move_phase: "phase (fst (conclude_move s r)) = phase s"
proof -
  obtain s' out where c: "conclude_move s r = (s', out)"
    by (cases "conclude_move s r")
  from conclude_move_frame [OF c] have "phase s' = phase s"
    by auto
  with c show ?thesis by simp
qed

lemma victory_step_phase: "phase (fst (victory_step s r)) = phase s"
proof -
  obtain s' out where c: "victory_step s r = (s', out)"
    by (cases "victory_step s r")
  from victory_step_frame [OF c] have "phase s' = phase s"
    by auto
  with c show ?thesis by simp
qed

lemma move_session_phase: "phase (fst (move_session s tok fx fy tx ty)) = phase s"
proof -
  have m: "phase s1 = phase s" if "move_piece s fx fy tx ty = (s1, o1)" for s1 o1
    using move_piece_phase [of s fx fy tx ty] that by simp
  have r: "phase s2 = phase s1" if "resolve_turn s1 tx ty p caps = (s2, o2)" for s1 s2 p caps o2
    using resolve_turn_phase [of s1 tx ty p caps] that by simp
  have c: "phase s3 = phase s2" if "conclude_move s2 res = (s3, o3)" for s2 s3 res o3
    using conclude_move_phase [of s2 res] that by simp
  show ?thesis
    unfolding move_session_def
    by (auto split: sum.splits prod.splits dest!: m r c)
qed

lemma place_session_movement:
  "phase s = MOVEMENT \<Longrightarrow> fst (place_session s tok x y) = s"
  by (auto simp: place_session_def can_place_piece_def split: sum.splits prod.splits)

lemma join_session_phase: "phase (fst (join_session s gid t new_token first)) = phase s"
  by (auto simp: join_session_def join_new_def split: option.splits)

lemma leave_session_phase: "fst (leave_session s tok) = Some s' \<Longrightarrow> phase s' = phase s"
  by (auto simp: leave_session_def leave_rest_def Let_def split: if_splits)

lemma rematch_session_phase:
  "\<not> restarts s (Rematch tok first) \<Longrightarrow> phase (fst (rematch_session s tok first)) = phase s"
  by (auto simp: rematch_session_def Let_def split: sum.splits if_splits)

lemma step_keeps_movement:
  assumes "phase s = MOVEMENT" and "\<not> restarts s a" and "step s a = Some s'"
  shows "phase s' = MOVEMENT"
proof (cases a)
  case (Join t new_token first)
  with assms show ?thesis using join_session_phase by auto
next
  case (Place tok x y)
  with assms show ?thesis using place_session_movement by auto
next
  case (Move tok fx fy tx ty)
  with assms show ?thesis using move_session_phase by auto
next
  case (Leave tok)
  with assms show ?thesis using leave_session_phase by auto
next
  case (Rematch tok first)
  with assms show ?thesis using rematch_session_phase by auto
qed

lemma run_keeps_movement:
  assumes "phase s = MOVEMENT" and "no_restart s acts" and "run s acts = Some s'"
  shows "phase s' = MOVEMENT"
  using assms
proof (induction acts arbitrary: s)
  case Nil
  then show ?case by simp
next
  case (Cons a acts)
  from Cons.prems(3) obtain s1 where s1: "step s a = Some s1" and r: "run s1 acts = Some s'"
    by (auto split: option.splits)
  from Cons.prems(2) s1 have nr: "\<not> restarts s a" and rest: "no_restart s1 acts"
    by simp_all
  from step_keeps_movement [OF Cons.prems(1) nr s1] have "phase s1 = MOVEMENT" .
  from Cons.IH [OF this rest r] show ?case .
qed

lemma place_session_reaches_24:
  assumes "place_session s tok x y = (s', Inr (view, result))"
    and "24 \<le> total_pieces_placed s'"
  shows "phase s' = MOVEMENT \<and> chain_capture_piece s' = None \<and> phase_changed result"
proof -
  from assms(1) obtain p m s1 changed where can: "can_place_piece s x y p = Inr (True, m)"
    and pp: "place_piece s x y p = (s1, Inr changed)"
    and fin: "(changed \<and> s' = s1 \<and> phase_changed result)
              \<or> (\<not> changed \<and> s' = fst (victory_step s1
                     \<lparr>success = True, captures = [], extra_turn = False,
                      phase_changed = changed, r_game_over = False, r_winner = None,
                      message = ''Pieza colocada exitosamente''\<rparr>))"
    by (auto simp: place_session_def Let_def split: sum.splits prod.splits if_splits)
  have ph: "phase s = PLACEMENT"
    using can by (rule can_place_piece_accepts(1))
  from pp ph have shape:
    "(changed \<and> phase s1 = MOVEMENT \<and> chain_capture_piece s1 = None)
     \<or> (\<not> changed \<and> total_pieces_placed s1 < 24 \<and> phase s1 = PLACEMENT)"
    by (auto simp: place_piece_def Let_def switch_turn_def split: sum.splits option.splits if_splits)
  show ?thesis
  proof (cases changed)
    case True
    with fin shape show ?thesis by auto
  next
    case False
    with shape have ph1: "phase s1 = PLACEMENT" and lt: "total_pieces_placed s1 < 24"
      by auto
    let ?r = "\<lparr>success = True, captures = [], extra_turn = False,
                      phase_changed = changed, r_game_over = False, r_winner = None,
                      message = ''Pieza colocada exitosamente''\<rparr>"
    have "fst (victory_step s1 ?r) = s1"
      using ph1 by (simp add: victory_step_def check_victory_def)
    with fin False have "s' = s1" by simp
    with lt assms(2) show ?thesis by simp
  qed
qed

lemma place_piece_reaches_24:
  assumes "place_piece s x y p = (s', Inr changed)"
    and "24 \<le> total_pieces_placed s'"
  shows "phase s' = MOVEMENT \<and> chain_capture_piece s' = None \<and> changed"
  using assms
  by (auto simp: place_piece_def Let_def split: sum.splits option.splits if_splits)

lemma can_place_piece_movement:
  "phase s = MOVEMENT \<Longrightarrow>
     can_place_piece s x y p = Inr (False, ''No est'' @ a_acute @ ''s en la fase de posicionamiento'')"
  by (simp add: can_place_piece_def)

lemma fcard_two:
  assumes "m |\<in>| r" and "m \<noteq> n"
  shows "2 \<le> fcard (finsert n r)"
proof -
  have "{m, n} \<subseteq> fset (finsert n r)"
    using assms(1) by auto
  then have "card {m, n} \<le> card (fset (finsert n r))"
    by (intro card_mono) auto
  then show ?thesis
    using assms(2) by (simp add: fcard.rep_eq)
qed

lemma rematch_session_restart:
  assumes "restarts s (Rematch tok first)"
  shows "phase (fst (rematch_session s tok first)) = PLACEMENT"
  using assms
  by (auto simp: rematch_session_def Let_def split: sum.splits if_splits)

lemma rematch_session_both_asked:
  assumes "game_over s"
    and "get_player_number s tok = Inr n"
    and "rematch_requests s = Some r"
    and "get_opponent n |\<in>| r"
  shows "restarts s (Rematch tok first)"
proof -
  have "get_opponent n \<noteq> n"
    by (simp add: get_opponent_def)
  with assms(4) have "2 \<le> fcard (finsert n r)"
    by (rule fcard_two)
  then show ?thesis
    using assms(1,2,3) by (simp add: rematch_session_def Let_def)
qed

text \<open>
  C5, as the code has it. A placement that brings the counter to 24 leaves the session
  in the movement phase with the chain pointer cleared and signals the phase change,
  in the rules (the flag returned) and in the service (\<open>phase_changed\<close> of the result).
  From a session in the movement phase, every sequence of requests in which no
  rematch request completes the handshake leaves the phase at movement, and every
  placement attempt is rejected there. A rematch request that completes the
  handshake, as the request of a player does once the game is over and the opponent
  has asked, leaves the session in the placement phase.
\<close>

theorem placement_ends_at_24:
  "(place_piece s x y p = (s1, Inr changed) \<and> 24 \<le> total_pieces_placed s1
      \<longrightarrow> phase s1 = MOVEMENT \<and> chain_capture_piece s1 = None \<and> changed)
   \<and> (place_session s tok x y = (s', Inr (view, result)) \<and> 24 \<le> total_pieces_placed s'
      \<longrightarrow> phase s' = MOVEMENT \<and> chain_capture_piece s' = None \<and> phase_changed result)
   \<and> (phase s = MOVEMENT \<and> no_restart s acts \<and> run s acts = Some s''
      \<longrightarrow> phase s'' = MOVEMENT
        \<and> (\<forall>px py q. can_place_piece s'' px py q
              = Inr (False, ''No est'' @ a_acute @ ''s en la fase de posicionamiento'')))
   \<and> (restarts s (Rematch tok first)
      \<longrightarrow> phase (fst (rematch_session s tok first)) = PLACEMENT)
   \<and> (game_over s \<and> get_player_number s tok = Inr n \<and> rematch_requests s = Some r
        \<and> get_opponent n |\<in>| r
      \<longrightarrow> restarts s (Rematch tok first))"
proof (intro conjI)
  show "place_piece s x y p = (s1, Inr changed) \<and> 24 \<le> total_pieces_placed s1
      \<longrightarrow> phase s1 = MOVEMENT \<and> chain_capture_piece s1 = None \<and> changed"
    using place_piece_reaches_24 by blast
  show "place_session s tok x y = (s', Inr (view, result)) \<and> 24 \<le> total_pieces_placed s'
      \<longrightarrow> phase s' = MOVEMENT \<and> chain_capture_piece s' = None \<and> phase_changed result"
    using place_session_reaches_24 by blast
  show "phase s = MOVEMENT \<and> no_restart s acts \<and> run s acts = Some s''
      \<longrightarrow> phase s'' = MOVEMENT
        \<and> (\<forall>px py q. can_place_piece s'' px py q
              = Inr (False, ''No est'' @ a_acute @ ''s en la fase de posicionamiento''))"
    using run_keeps_movement can_place_piece_movement by blast
  show "restarts s (Rematch tok first)
      \<longrightarrow> phase (fst (rematch_session s tok first)) = PLACEMENT"
    using rematch_session_restart by blast
  show "game_over s \<and> get_player_number s tok = Inr n \<and> rematch_requests s = Some r
        \<and> get_opponent n |\<in>| r
      \<longrightarrow> restarts s (Rematch tok first)"
    using rematch_session_both_asked by blast
qed

text \<open>
  C5 as stated keeps the phase at movement for ever. In the second game the
  twenty-fourth placement starts the movement phase; one move later player 2 is
  blocked and the game is over; after the rematch requests of both players the session
  is in the placement phase again and player 2 may place on \<open>(0, 0)\<close>.
\<close>

theorem rematch_reopens_placement_counterexample:
  "map_option total_pieces_placed
     (run (waiting_session ''GAME0001'' ''token-one'') blocked_opening) = Some 24
   \<and> map_option phase
       (run (waiting_session ''GAME0001'' ''token-one'') blocked_opening) = Some MOVEMENT
   \<and> map_option phase
       (run (waiting_session ''GAME0001'' ''token-one'')
          (blocked_opening
             @ [Move ''token-one'' 2 1 2 2, Rematch ''token-one'' 2, Rematch ''token-two'' 2]))
       = Some PLACEMENT
   \<and> can_place_piece
       (after (blocked_opening
                 @ [Move ''token-one'' 2 1 2 2, Rematch ''token-one'' 2,
                    Rematch ''token-two'' 2])) 0 0 2
       = Inr (True, ''OK'')"
  by code_simp

theorem placement_ends_at_24_witness:
  "total_pieces_placed (fst (place_piece (after (butlast blocked_opening)) 4 4 2)) = 24
   \<and> phase (fst (place_piece (after (butlast blocked_opening)) 4 4 2)) = MOVEMENT
   \<and> total_pieces_placed
       (fst (place_session (after (butlast blocked_opening)) ''token-two'' 4 4)) = 24
   \<and> phase (fst (place_session (after (butlast blocked_opening)) ''token-two'' 4 4))
       = MOVEMENT
   \<and> phase (after blocked_opening) = MOVEMENT
   \<and> no_restart (after blocked_opening) [Move ''token-one'' 2 1 2 2, Rematch ''token-one'' 2]
   \<and> (\<exists>s. run (after blocked_opening) [Move ''token-one'' 2 1 2 2, Rematch ''token-one'' 2]
              = Some s
          \<and> phase s = MOVEMENT
          \<and> can_place_piece s 0 0 2
              = Inr (False, ''No est'' @ a_acute @ ''s en la fase de posicionamiento''))
   \<and> game_over
       (after (blocked_opening @ [Move ''token-one'' 2 1 2 2, Rematch ''token-one'' 2]))
   \<and> restarts
       (after (blocked_opening @ [Move ''token-one'' 2 1 2 2, Rematch ''token-one'' 2]))
       (Rematch ''token-two'' 2)
   \<and> phase (fst (rematch_session
                   (after (blocked_opening
                             @ [Move ''token-one'' 2 1 2 2, Rematch ''token-one'' 2]))
                   ''token-two'' 2)) = PLACEMENT"
proof -
  let ?s23 = "after (butlast blocked_opening)"
  let ?s24 = "after blocked_opening"
  let ?acts = "[Move ''token-one'' 2 1 2 2, Rematch ''token-one'' 2]"
  let ?over = "after (blocked_opening @ ?acts)"
  have "snd (place_piece ?s23 4 4 2) = Inr True"
    by code_simp
  then have pp: "place_piece ?s23 4 4 2 = (fst (place_piece ?s23 4 4 2), Inr True)"
    by (metis prod.collapse)
  have ptot: "24 \<le> total_pieces_placed (fst (place_piece ?s23 4 4 2))"
    and ptot24: "total_pieces_placed (fst (place_piece ?s23 4 4 2)) = 24"
    by code_simp+
  have ok: "case snd (place_session ?s23 ''token-two'' 4 4) of
              Inr (v, r) \<Rightarrow> True | Inl e \<Rightarrow> False"
    by code_simp
  then obtain view result where
    "snd (place_session ?s23 ''token-two'' 4 4) = Inr (view, result)"
    by (auto split: sum.splits)
  then have ps: "place_session ?s23 ''token-two'' 4 4
                   = (fst (place_session ?s23 ''token-two'' 4 4), Inr (view, result))"
    by (metis prod.collapse)
  have tot: "24 \<le> total_pieces_placed (fst (place_session ?s23 ''token-two'' 4 4))"
    and tot24: "total_pieces_placed (fst (place_session ?s23 ''token-two'' 4 4)) = 24"
    by code_simp+
  have ph: "phase ?s24 = MOVEMENT" and nr: "no_restart ?s24 ?acts"
    by code_simp+
  have "run ?s24 ?acts \<noteq> None"
    by code_simp
  then obtain s where r: "run ?s24 ?acts = Some s"
    by auto
  have go: "game_over ?over" and num: "get_player_number ?over ''token-two'' = Inr 2"
    by code_simp+
  have "case rematch_requests ?over of Some r \<Rightarrow> get_opponent 2 |\<in>| r | None \<Rightarrow> False"
    by code_simp
  then obtain rq where rq: "rematch_requests ?over = Some rq" and asked: "get_opponent 2 |\<in>| rq"
    by (auto split: option.splits)
  note rules = placement_ends_at_24
    [where s = ?s23 and x = 4 and y = 4 and p = 2
       and ?s1.0 = "fst (place_piece ?s23 4 4 2)" and changed = True, THEN conjunct1]
  note service = placement_ends_at_24
    [where s = ?s23 and tok = "''token-two''" and x = 4 and y = 4
       and s' = "fst (place_session ?s23 ''token-two'' 4 4)"
       and view = view and result = result, THEN conjunct2, THEN conjunct1]
  note later = placement_ends_at_24
    [where s = ?s24 and acts = ?acts and s'' = s,
     THEN conjunct2, THEN conjunct2, THEN conjunct1]
  note reset = placement_ends_at_24
    [where s = ?over and tok = "''token-two''" and first = 2,
     THEN conjunct2, THEN conjunct2, THEN conjunct2, THEN conjunct1]
  note both = placement_ends_at_24
    [where s = ?over and tok = "''token-two''" and first = 2 and n = 2 and r = rq,
     THEN conjunct2, THEN conjunct2, THEN conjunct2, THEN conjunct2]
  from rules pp ptot have "phase (fst (place_piece ?s23 4 4 2)) = MOVEMENT"
    by blast
  moreover from service ps tot
  have "phase (fst (place_session ?s23 ''token-two'' 4 4)) = MOVEMENT"
    by blast
  moreover from later ph nr r have "phase s = MOVEMENT
    \<and> can_place_piece s 0 0 2
         = Inr (False, ''No est'' @ a_acute @ ''s en la fase de posicionamiento'')"
    by blast
  moreover from both go num rq asked have rs: "restarts ?over (Rematch ''token-two'' 2)"
    by blast
  moreover from reset rs have "phase (fst (rematch_session ?over ''token-two'' 2)) = PLACEMENT"
    by blast
  ultimately show ?thesis
    using ptot24 tot24 ph nr r go by blast
qed

end
